theory Spec2Isabelle
  imports Complex_Main
begin

section \<open>The vision client of \<^verbatim>\<open>rpi-vision-client/main.py\<close>\<close>

text \<open>
  The client captures one frame per configured camera with \<^verbatim>\<open>ffmpeg\<close>, posts it to a
  detection endpoint, reports capture failures to a health endpoint and repeats on a
  fixed interval until a shutdown signal clears its \<^verbatim>\<open>running\<close> flag.

  The embedding is a state-passing one. Everything outside the process (the outcome and
  duration of each \<^verbatim>\<open>ffmpeg\<close> run and of each HTTP request, and the moments at which a
  signal is delivered) is an oracle, the record \<open>env\<close>. The \<open>world\<close> holds the client's
  flag, an idealised clock (seconds, as a real number), call counters that index the
  oracles, and the trace of the external effects performed so far. Log output is not
  modelled. A Python exception is a value of \<open>exn\<close>; a function that may propagate one
  returns \<open>exn + 'a\<close>, with \<open>Inl\<close> the exception.
\<close>

subsection \<open>Data model\<close>

type_synonym bytes = "char list"

record 'v CameraConfig =
  camera_id :: 'v
  rtsp_url :: 'v
  name :: "'v option"

record 'v ClientConfig =
  api_url :: string
  api_key :: string
  cameras :: "'v CameraConfig list"
  interval :: real
  max_retries :: int

text \<open>
  The dataclasses annotate the camera fields as \<^verbatim>\<open>str\<close>; the scheduler is modelled at
  that type. The JSON loaders store whatever value the document holds, so the record is
  polymorphic in the field type and the entry point builds it over JSON values.
\<close>

type_synonym camera = "string CameraConfig"
type_synonym config = "string ClientConfig"

datatype exn =
    TimeoutExpired
  | FileNotFoundError
  | RequestsTimeout
  | RequestsConnectionError
  | JSONDecodeError
  | UnicodeDecodeError
  | KeyError
  | TypeError
  | AttributeError
  | ValueError
  | OSError
  | OverflowError
  | KeyboardInterrupt

text \<open>
  \<^verbatim>\<open>except Exception\<close> catches every class above but \<^verbatim>\<open>KeyboardInterrupt\<close>, which derives
  from \<^verbatim>\<open>BaseException\<close> only.
\<close>

fun is_Exception :: "exn \<Rightarrow> bool" where
  "is_Exception KeyboardInterrupt = False"
| "is_Exception _ = True"

datatype event =
    Capture string
  | Sleep real
  | Submit string bytes
  | Report string string

text \<open>
  \<open>Capture url\<close>: one run of \<^verbatim>\<open>ffmpeg\<close> against \<open>url\<close>. \<open>Sleep d\<close>: one call
  \<^verbatim>\<open>time.sleep(d)\<close>. \<open>Submit id frame\<close>: one POST to \<^verbatim>\<open>/api/vision/detect\<close>.
  \<open>Report id msg\<close>: one POST to \<^verbatim>\<open>/api/vision/health/report\<close>.
\<close>

datatype proc_outcome =
    CompletedProcess int bytes bool
  | RunRaises exn

text \<open>
  What \<^verbatim>\<open>subprocess.run\<close> does: it returns a completed process (return code, standard
  output, and whether its standard error decodes as text) or raises.
\<close>

record world =
  running :: bool
  clock :: real
  tick :: nat
  n_capture :: nat
  n_detect :: nat
  n_health :: nat
  trace :: "event list"

datatype json =
    JNull
  | JBool bool
  | JNum int
  | JStr string
  | JList "json list"
  | JDict "(string \<times> json) list"

datatype http_outcome =
    Response int "json option"
  | PostRaises exn

text \<open>
  What \<^verbatim>\<open>requests.post\<close> does: it returns a response (status code, and the value
  \<^verbatim>\<open>response.json()\<close> yields, \<open>None\<close> when the body is not JSON) or raises.
\<close>

record env =
  ffmpeg :: "string \<Rightarrow> nat \<Rightarrow> proc_outcome \<times> real"
  detect :: "string \<Rightarrow> bytes \<Rightarrow> nat \<Rightarrow> http_outcome \<times> real"
  health :: "string \<Rightarrow> string \<Rightarrow> nat \<Rightarrow> http_outcome \<times> real"
  signal_during :: "nat \<Rightarrow> bool"

text \<open>
  \<open>ffmpeg E url n\<close> is the outcome and the duration of the \<open>n\<close>-th capture of the run
  (counted from 0 over all cameras); likewise \<open>detect\<close> and \<open>health\<close> for the two
  endpoints. \<open>signal_during E t\<close> says whether SIGINT or SIGTERM is delivered while the
  \<open>t\<close>-th blocking operation (capture, request or sleep) is under way.
\<close>

subsection \<open>Signals and blocking operations\<close>

definition client_init :: world where
  "client_init = \<lparr>running = False, clock = 0, tick = 0, n_capture = 0, n_detect = 0,
     n_health = 0, trace = []\<rparr>"

definition handle_shutdown :: "world \<Rightarrow> world" where
  "handle_shutdown w = w\<lparr>running := False\<rparr>"

text \<open>
  A blocking operation appends its event, lets its duration pass and runs the handler
  when a signal arrives meanwhile. The handler returns normally, so the interrupted call
  is resumed and runs to its end (PEP 475): \<^verbatim>\<open>time.sleep\<close> sleeps its full duration.
  The clock is idealised: a sleep lasts exactly its argument and nothing else takes time
  but the three kinds of external call.
\<close>

definition blocking :: "env \<Rightarrow> event \<Rightarrow> real \<Rightarrow> world \<Rightarrow> world" where
  "blocking E ev d w =
     (let w1 = w\<lparr>clock := clock w + d, tick := Suc (tick w), trace := trace w @ [ev]\<rparr>
      in if signal_during E (tick w) then handle_shutdown w1 else w1)"

definition sleep :: "env \<Rightarrow> real \<Rightarrow> world \<Rightarrow> world" where
  "sleep E d w = blocking E (Sleep d) d w"

text \<open>
  \<^verbatim>\<open>time.sleep(d)\<close> converts its argument to a signed 64-bit count of nanoseconds and
  raises \<^verbatim>\<open>OverflowError\<close>, before any time passes, when the count does not fit: from
  about 9.22e9 seconds on. \<open>sleep\<close> above is a sleep that is accepted.
\<close>

definition sleep_limit :: real where
  "sleep_limit = 2 ^ 63 / 10 ^ 9"

definition time_sleep :: "env \<Rightarrow> real \<Rightarrow> world \<Rightarrow> exn + world" where
  "time_sleep E d w = (if sleep_limit \<le> d then Inl OverflowError else Inr (sleep E d w))"

subsection \<open>capture_frame\<close>

definition capture_frame_try :: "proc_outcome \<Rightarrow> exn + bytes option" where
  "capture_frame_try out =
     (case out of
        RunRaises e \<Rightarrow> Inl e
      | CompletedProcess returncode stdout stderr_decodes \<Rightarrow>
          if returncode \<noteq> 0 then
            (if stderr_decodes then Inr None else Inl UnicodeDecodeError)
          else if length stdout = 0 then Inr None
          else Inr (Some stdout))"

definition capture_frame_ret :: "proc_outcome \<Rightarrow> exn + bytes option" where
  "capture_frame_ret out =
     (case capture_frame_try out of
        Inr r \<Rightarrow> Inr r
      | Inl e \<Rightarrow>
          if e = TimeoutExpired then Inr None
          else if e = FileNotFoundError then Inr None
          else if is_Exception e then Inr None
          else Inl e)"

definition capture_frame :: "env \<Rightarrow> string \<Rightarrow> world \<Rightarrow> exn + (bytes option \<times> world)" where
  "capture_frame E url w =
     (let (out, d) = ffmpeg E url (n_capture w);
          w1 = blocking E (Capture url) d (w\<lparr>n_capture := Suc (n_capture w)\<rparr>)
      in case capture_frame_ret out of
           Inl e \<Rightarrow> Inl e
         | Inr r \<Rightarrow> Inr (r, w1))"

subsection \<open>capture_frame_with_retry\<close>

text \<open>\<^verbatim>\<open>range(n)\<close>: empty when \<open>n \<le> 0\<close>.\<close>

definition py_range :: "int \<Rightarrow> nat list" where
  "py_range n = [0..<nat n]"

fun retry_attempts ::
  "env \<Rightarrow> config \<Rightarrow> string \<Rightarrow> nat list \<Rightarrow> world \<Rightarrow> exn + (bytes option \<times> world)" where
  "retry_attempts E cfg url [] w = Inr (None, w)"
| "retry_attempts E cfg url (attempt # rest) w =
     (case capture_frame E url w of
        Inl e \<Rightarrow> Inl e
      | Inr (Some frame, w1) \<Rightarrow> Inr (Some frame, w1)
      | Inr (None, w1) \<Rightarrow>
          retry_attempts E cfg url rest
            (if int attempt < max_retries cfg - 1 then sleep E (2 ^ attempt) w1 else w1))"

definition capture_frame_with_retry ::
  "env \<Rightarrow> config \<Rightarrow> string \<Rightarrow> world \<Rightarrow> exn + (bytes option \<times> world)" where
  "capture_frame_with_retry E cfg url w =
     retry_attempts E cfg url (py_range (max_retries cfg)) w"

text \<open>
  The backoff \<open>2 ^ attempt\<close> reaches the limit of \<^verbatim>\<open>time.sleep\<close> at attempt 34 only, that
  is after \<open>2 ^ 34 - 1\<close> seconds (more than five centuries) of completed backoff sleeps
  for one frame. The retry loop is modelled with the sleep that is accepted; the sleep
  between cycles, whose argument comes from the configuration, is modelled with
  \<open>time_sleep\<close>.
\<close>

subsection \<open>send_frame\<close>

text \<open>\<^verbatim>\<open>x.get(key, default)\<close> and \<^verbatim>\<open>len(x)\<close> on a value decoded from JSON.\<close>

fun py_get :: "json \<Rightarrow> string \<Rightarrow> json \<Rightarrow> exn + json" where
  "py_get (JDict kvs) key dflt = Inr (case map_of kvs key of None \<Rightarrow> dflt | Some v \<Rightarrow> v)"
| "py_get _ key dflt = Inl AttributeError"

fun py_len :: "json \<Rightarrow> exn + nat" where
  "py_len (JStr s) = Inr (length s)"
| "py_len (JList xs) = Inr (length xs)"
| "py_len (JDict kvs) = Inr (length kvs)"
| "py_len _ = Inl TypeError"

definition send_frame_try :: "http_outcome \<Rightarrow> exn + json option" where
  "send_frame_try out =
     (case out of
        PostRaises e \<Rightarrow> Inl e
      | Response status_code body \<Rightarrow>
          if status_code = 401 then Inr None
          else if status_code = 404 then Inr None
          else if status_code \<noteq> 200 then Inr None
          else
            (case body of
               None \<Rightarrow> Inl JSONDecodeError
             | Some result \<Rightarrow>
                 (case py_get result ''objects'' (JList []) of
                    Inl e \<Rightarrow> Inl e
                  | Inr objects \<Rightarrow>
                      (case py_len objects of
                         Inl e \<Rightarrow> Inl e
                       | Inr n \<Rightarrow>
                           (case py_get result ''processing_time_ms'' (JNum 0) of
                              Inl e \<Rightarrow> Inl e
                            | Inr t \<Rightarrow> Inr (Some result))))))"

definition send_frame_ret :: "http_outcome \<Rightarrow> exn + json option" where
  "send_frame_ret out =
     (case send_frame_try out of
        Inr r \<Rightarrow> Inr r
      | Inl e \<Rightarrow>
          if e = RequestsTimeout then Inr None
          else if e = RequestsConnectionError then Inr None
          else if is_Exception e then Inr None
          else Inl e)"

definition send_frame ::
  "env \<Rightarrow> config \<Rightarrow> string \<Rightarrow> bytes \<Rightarrow> world \<Rightarrow> exn + (json option \<times> world)" where
  "send_frame E cfg cid frame w =
     (let (out, d) = detect E cid frame (n_detect w);
          w1 = blocking E (Submit cid frame) d (w\<lparr>n_detect := Suc (n_detect w)\<rparr>)
      in case send_frame_ret out of
           Inl e \<Rightarrow> Inl e
         | Inr r \<Rightarrow> Inr (r, w1))"

subsection \<open>report_error\<close>

definition report_error_ret :: "http_outcome \<Rightarrow> exn + unit" where
  "report_error_ret out =
     (case out of
        Response status_code body \<Rightarrow> Inr ()
      | PostRaises e \<Rightarrow> if is_Exception e then Inr () else Inl e)"

definition report_error ::
  "env \<Rightarrow> config \<Rightarrow> string \<Rightarrow> string \<Rightarrow> world \<Rightarrow> exn + world" where
  "report_error E cfg cid error_message w =
     (let (out, d) = health E cid error_message (n_health w);
          w1 = blocking E (Report cid error_message) d (w\<lparr>n_health := Suc (n_health w)\<rparr>)
      in case report_error_ret out of
           Inl e \<Rightarrow> Inl e
         | Inr u \<Rightarrow> Inr w1)"

subsection \<open>process_camera\<close>

definition process_camera :: "env \<Rightarrow> config \<Rightarrow> camera \<Rightarrow> world \<Rightarrow> exn + world" where
  "process_camera E cfg camera w =
     (case capture_frame_with_retry E cfg (rtsp_url camera) w of
        Inl e \<Rightarrow> Inl e
      | Inr (None, w1) \<Rightarrow>
          report_error E cfg (camera_id camera)
            (''Failed to capture frame from '' @ rtsp_url camera) w1
      | Inr (Some frame, w1) \<Rightarrow>
          (case send_frame E cfg (camera_id camera) frame w1 of
             Inl e \<Rightarrow> Inl e
           | Inr (result, w2) \<Rightarrow> Inr w2))"

subsection \<open>run\<close>

text \<open>The \<^verbatim>\<open>for camera in self.config.cameras\<close> loop, with its \<^verbatim>\<open>break\<close>.\<close>

fun process_cameras :: "env \<Rightarrow> config \<Rightarrow> camera list \<Rightarrow> world \<Rightarrow> exn + world" where
  "process_cameras E cfg [] w = Inr w"
| "process_cameras E cfg (camera # rest) w =
     (if \<not> running w then Inr w
      else
        (case process_camera E cfg camera w of
           Inl e \<Rightarrow> Inl e
         | Inr w1 \<Rightarrow> process_cameras E cfg rest w1))"

text \<open>One pass of the body of \<^verbatim>\<open>while self.running\<close>.\<close>

definition cycle :: "env \<Rightarrow> config \<Rightarrow> world \<Rightarrow> exn + world" where
  "cycle E cfg w =
     (let cycle_start = clock w
      in case process_cameras E cfg (cameras cfg) w of
           Inl e \<Rightarrow> Inl e
         | Inr w1 \<Rightarrow>
             (let elapsed = clock w1 - cycle_start;
                  sleep_time = max 0 (interval cfg - elapsed)
              in if sleep_time > 0 \<and> running w1 then time_sleep E sleep_time w1
                 else Inr w1))"

text \<open>
  The \<^verbatim>\<open>while\<close> loop runs until the flag is cleared, which may be never. The model
  counts cycles with fuel: \<open>None\<close> means that the loop is still running after \<open>fuel\<close>
  cycles, \<open>Some (Inl e)\<close> that an exception left it, \<open>Some (Inr w)\<close> that it ended.
\<close>

fun run_loop :: "env \<Rightarrow> config \<Rightarrow> nat \<Rightarrow> world \<Rightarrow> (exn + world) option" where
  "run_loop E cfg 0 w = (if running w then None else Some (Inr w))"
| "run_loop E cfg (Suc fuel) w =
     (if running w then
        (case cycle E cfg w of
           Inl e \<Rightarrow> Some (Inl e)
         | Inr w1 \<Rightarrow> run_loop E cfg fuel w1)
      else Some (Inr w))"

definition run :: "env \<Rightarrow> config \<Rightarrow> nat \<Rightarrow> world \<Rightarrow> (exn + world) option" where
  "run E cfg fuel w = run_loop E cfg fuel (w\<lparr>running := True\<rparr>)"

subsection \<open>Loading the cameras and main\<close>

text \<open>
  \<open>parse_args\<close> is taken as done: \<open>args\<close> is the namespace it returns, with the
  environment defaults of \<^verbatim>\<open>API_URL\<close> and \<^verbatim>\<open>API_KEY\<close> already filled in. The file system
  and the \<^verbatim>\<open>CAMERAS\<close> variable are the \<open>startup\<close> oracle.
\<close>

record args =
  arg_api_url :: "string option"
  arg_api_key :: "string option"
  arg_config :: "string option"
  arg_cameras :: "string list option"
  arg_interval :: real
  arg_max_retries :: int

record startup =
  config_file :: "string \<Rightarrow> exn + json"
  env_CAMERAS :: "exn + json"

text \<open>
  \<open>config_file S path\<close>: what \<^verbatim>\<open>open(path)\<close> followed by \<^verbatim>\<open>json.load\<close> yields.
  \<open>env_CAMERAS S\<close>: what \<^verbatim>\<open>json.loads(os.environ.get('CAMERAS', '[]'))\<close> yields.
\<close>

text \<open>Truthiness of an optional string and of an optional list.\<close>

fun truthy :: "'a list option \<Rightarrow> bool" where
  "truthy None = False"
| "truthy (Some xs) = (xs \<noteq> [])"

text \<open>\<^verbatim>\<open>for x in v\<close> and \<^verbatim>\<open>v[key]\<close> with a string key, on a value decoded from JSON.\<close>

fun py_iter :: "json \<Rightarrow> exn + json list" where
  "py_iter (JList xs) = Inr xs"
| "py_iter (JDict kvs) = Inr (map (\<lambda>kv. JStr (fst kv)) kvs)"
| "py_iter (JStr s) = Inr (map (\<lambda>c. JStr [c]) s)"
| "py_iter _ = Inl TypeError"

fun py_getitem :: "json \<Rightarrow> string \<Rightarrow> exn + json" where
  "py_getitem (JDict kvs) key =
     (case map_of kvs key of None \<Rightarrow> Inl KeyError | Some v \<Rightarrow> Inr v)"
| "py_getitem _ key = Inl TypeError"

definition camera_of_json :: "json \<Rightarrow> exn + json CameraConfig" where
  "camera_of_json cam =
     (case py_getitem cam ''camera_id'' of
        Inl e \<Rightarrow> Inl e
      | Inr cid \<Rightarrow>
          (case py_getitem cam ''rtsp_url'' of
             Inl e \<Rightarrow> Inl e
           | Inr url \<Rightarrow>
               (case py_get cam ''name'' JNull of
                  Inl e \<Rightarrow> Inl e
                | Inr n \<Rightarrow>
                    Inr \<lparr>camera_id = cid, rtsp_url = url,
                         name = (if n = JNull then None else Some n)\<rparr>)))"

fun cameras_of_json :: "json list \<Rightarrow> exn + json CameraConfig list" where
  "cameras_of_json [] = Inr []"
| "cameras_of_json (cam # rest) =
     (case camera_of_json cam of
        Inl e \<Rightarrow> Inl e
      | Inr c \<Rightarrow>
          (case cameras_of_json rest of
             Inl e \<Rightarrow> Inl e
           | Inr cs \<Rightarrow> Inr (c # cs)))"

definition load_cameras_from_file :: "startup \<Rightarrow> string \<Rightarrow> exn + json CameraConfig list" where
  "load_cameras_from_file S filepath =
     (case config_file S filepath of
        Inl e \<Rightarrow> Inl e
      | Inr data \<Rightarrow>
          (case py_get data ''cameras'' (JList []) of
             Inl e \<Rightarrow> Inl e
           | Inr v \<Rightarrow>
               (case py_iter v of
                  Inl e \<Rightarrow> Inl e
                | Inr cams \<Rightarrow> cameras_of_json cams)))"

definition load_cameras_from_env :: "startup \<Rightarrow> exn + json CameraConfig list" where
  "load_cameras_from_env S =
     (case env_CAMERAS S of
        Inl e \<Rightarrow> Inl e
      | Inr data \<Rightarrow>
          (case py_iter data of
             Inl e \<Rightarrow> Inl e
           | Inr cams \<Rightarrow> cameras_of_json cams))"

text \<open>\<^verbatim>\<open>s.split(':', 1)\<close> and \<^verbatim>\<open>s.rstrip('/')\<close>.\<close>

definition split_once :: "char \<Rightarrow> string \<Rightarrow> string list" where
  "split_once c s =
     (if c \<in> set s then [takeWhile (\<lambda>x. x \<noteq> c) s, tl (dropWhile (\<lambda>x. x \<noteq> c) s)]
      else [s])"

definition rstrip :: "char \<Rightarrow> string \<Rightarrow> string" where
  "rstrip c s = rev (dropWhile (\<lambda>x. x = c) (rev s))"

text \<open>
  The loop over \<^verbatim>\<open>args.cameras\<close>: \<open>None\<close> when an entry does not unpack into two parts,
  where the source logs the format error and calls \<^verbatim>\<open>sys.exit(1)\<close>.
\<close>

fun cameras_of_args :: "string list \<Rightarrow> json CameraConfig list option" where
  "cameras_of_args [] = Some []"
| "cameras_of_args (cam_str # rest) =
     (case split_once CHR '':'' cam_str of
        [cid, url] \<Rightarrow>
          (case cameras_of_args rest of
             None \<Rightarrow> None
           | Some cs \<Rightarrow> Some (\<lparr>camera_id = JStr cid, rtsp_url = JStr url, name = None\<rparr> # cs))
      | _ \<Rightarrow> None)"

datatype main_result =
    Exit int
  | Uncaught exn
  | RunClient "json ClientConfig"

text \<open>
  \<open>Exit n\<close>: \<^verbatim>\<open>sys.exit(n)\<close>. \<open>Uncaught e\<close>: an exception that no handler catches leaves
  \<open>main\<close>. \<open>RunClient c\<close>: the client is built from \<open>c\<close> and \<^verbatim>\<open>client.run()\<close> is called.
\<close>

definition main :: "startup \<Rightarrow> args \<Rightarrow> main_result" where
  "main S a =
     (if \<not> truthy (arg_api_url a) then Exit 1
      else if \<not> truthy (arg_api_key a) then Exit 1
      else
        (case
           (if truthy (arg_config a) then
              (case load_cameras_from_file S (case arg_config a of Some f \<Rightarrow> f | None \<Rightarrow> []) of
                 Inl e \<Rightarrow> Inl (if is_Exception e then Exit 1 else Uncaught e)
               | Inr cs \<Rightarrow> Inr cs)
            else if truthy (arg_cameras a) then
              (case cameras_of_args (case arg_cameras a of Some l \<Rightarrow> l | None \<Rightarrow> []) of
                 None \<Rightarrow> Inl (Exit 1)
               | Some cs \<Rightarrow> Inr cs)
            else
              (case load_cameras_from_env S of
                 Inl e \<Rightarrow> Inl (Uncaught e)
               | Inr cs \<Rightarrow> Inr cs))
         of
           Inl r \<Rightarrow> r
         | Inr cams \<Rightarrow>
             if cams = [] then Exit 1
             else RunClient
               \<lparr>api_url = rstrip CHR ''/'' (case arg_api_url a of Some u \<Rightarrow> u | None \<Rightarrow> []),
                api_key = (case arg_api_key a of Some k \<Rightarrow> k | None \<Rightarrow> []),
                cameras = cams, interval = arg_interval a,
                max_retries = arg_max_retries a\<rparr>))"

text \<open>
  The status the process ends with when it ends in \<open>main\<close> before the scheduler runs:
  the argument of \<^verbatim>\<open>sys.exit\<close>, or 1 after the traceback of an uncaught exception
  (130, as a shell reports it, when that is \<^verbatim>\<open>KeyboardInterrupt\<close>).
\<close>

fun exit_status :: "main_result \<Rightarrow> int option" where
  "exit_status (Exit n) = Some n"
| "exit_status (Uncaught e) = Some (if e = KeyboardInterrupt then 130 else 1)"
| "exit_status (RunClient c) = None"

subsection \<open>Startup configurations\<close>

text \<open>
  The per-source specifications of a startup configuration are those of the origin that
  \<open>main\<close> reads: the entries of the \<^verbatim>\<open>cameras\<close> list of the configuration file when
  \<^verbatim>\<open>--config\<close> is given, else the \<^verbatim>\<open>--camera\<close> arguments when there are any, else the
  entries of the list in \<^verbatim>\<open>CAMERAS\<close>. \<open>None\<close> stands for an origin that holds no such
  list. An inline specification is well formed when it has the separator of
  \<^verbatim>\<open>camera_id:rtsp_url\<close>, an entry when it is an object with the keys \<^verbatim>\<open>camera_id\<close> and
  \<^verbatim>\<open>rtsp_url\<close>.
\<close>

datatype source_spec = InlineSpec string | JsonSpec json

fun well_formed_spec :: "source_spec \<Rightarrow> bool" where
  "well_formed_spec (InlineSpec s) = (CHR '':'' \<in> set s)"
| "well_formed_spec (JsonSpec (JDict kvs)) =
     (map_of kvs ''camera_id'' \<noteq> None \<and> map_of kvs ''rtsp_url'' \<noteq> None)"
| "well_formed_spec (JsonSpec _) = False"

definition source_specs :: "startup \<Rightarrow> args \<Rightarrow> source_spec list option" where
  "source_specs S a =
     (if truthy (arg_config a) then
        (case config_file S (case arg_config a of Some f \<Rightarrow> f | None \<Rightarrow> []) of
           Inr (JDict kvs) \<Rightarrow>
             (case map_of kvs ''cameras'' of
                None \<Rightarrow> Some []
              | Some (JList xs) \<Rightarrow> Some (map JsonSpec xs)
              | Some _ \<Rightarrow> None)
         | _ \<Rightarrow> None)
      else if truthy (arg_cameras a) then
        Some (map InlineSpec (case arg_cameras a of Some l \<Rightarrow> l | None \<Rightarrow> []))
      else
        (case env_CAMERAS S of
           Inr (JList xs) \<Rightarrow> Some (map JsonSpec xs)
         | _ \<Rightarrow> None))"


text \<open>
  The invalid startup configurations: no API address, no API key, no source, or a
  source specification that is not well formed.
\<close>

definition invalid_startup :: "startup \<Rightarrow> args \<Rightarrow> bool" where
  "invalid_startup S a =
     (\<not> truthy (arg_api_url a) \<or> \<not> truthy (arg_api_key a) \<or>
      (case source_specs S a of
         None \<Rightarrow> False
       | Some specs \<Rightarrow> specs = [] \<or> \<not> list_all well_formed_spec specs))"


subsection \<open>Reading a trace\<close>

text \<open>The events a run has added to the trace between two worlds.\<close>

definition events_since :: "world \<Rightarrow> world \<Rightarrow> event list" where
  "events_since w w' = drop (length (trace w)) (trace w')"

text \<open>
  The events of failed attempts that are followed by a backoff: for each attempt index
  \<open>i\<close> of the list, one capture and then a sleep of \<open>2 ^ i\<close> seconds.
\<close>

definition backoff_events :: "string \<Rightarrow> nat list \<Rightarrow> event list" where
  "backoff_events url idxs = concat (map (\<lambda>i. [Capture url, Sleep (2 ^ i)]) idxs)"

fun is_capture :: "event \<Rightarrow> bool" where
  "is_capture (Capture url) = True"
| "is_capture _ = False"

fun is_sleep :: "event \<Rightarrow> bool" where
  "is_sleep (Sleep d) = True"
| "is_sleep _ = False"

fun sleeps_of :: "event list \<Rightarrow> real list" where
  "sleeps_of [] = []"
| "sleeps_of (Sleep d # evs) = d # sleeps_of evs"
| "sleeps_of (ev # evs) = sleeps_of evs"

text \<open>
  Processing a camera ends with one request: a health report or a detection
  submission. These are the outcome events; each carries the camera's identifier.
\<close>

fun is_report :: "event \<Rightarrow> bool" where
  "is_report (Report cid msg) = True"
| "is_report _ = False"

fun is_submit :: "event \<Rightarrow> bool" where
  "is_submit (Submit cid frame) = True"
| "is_submit _ = False"

definition is_outcome :: "event \<Rightarrow> bool" where
  "is_outcome ev = (is_report ev \<or> is_submit ev)"

fun event_source :: "event \<Rightarrow> string" where
  "event_source (Report cid msg) = cid"
| "event_source (Submit cid frame) = cid"
| "event_source (Capture url) = url"
| "event_source (Sleep d) = []"

text \<open>
  An environment is well behaved when whatever its three collaborators raise is an
  \<^verbatim>\<open>Exception\<close>; it is quiet when no signal is ever delivered.
\<close>

definition well_behaved :: "env \<Rightarrow> bool" where
  "well_behaved E =
     ((\<forall>url n e. fst (ffmpeg E url n) = RunRaises e \<longrightarrow> is_Exception e) \<and>
      (\<forall>cid frame n e. fst (detect E cid frame n) = PostRaises e \<longrightarrow> is_Exception e) \<and>
      (\<forall>cid msg n e. fst (health E cid msg n) = PostRaises e \<longrightarrow> is_Exception e))"

definition quiet :: "env \<Rightarrow> bool" where
  "quiet E = (\<forall>t. \<not> signal_during E t)"

text \<open>
  The failure classes of a capture: the tool is not installed
  (\<^verbatim>\<open>FileNotFoundError\<close>), the run timed out, the run produced no data.
\<close>

fun failure_class :: "proc_outcome \<Rightarrow> bool" where
  "failure_class (RunRaises e) = (e = FileNotFoundError \<or> e = TimeoutExpired)"
| "failure_class (CompletedProcess returncode stdout stderr_decodes) = (stdout = [])"

text \<open>
  The failure classes of a submission: a status other than 200 (401 and 404 among
  them), a timeout, a connection failure.
\<close>

fun submission_error :: "http_outcome \<Rightarrow> bool" where
  "submission_error (Response status_code body) = (status_code \<noteq> 200)"
| "submission_error (PostRaises e) = (e = RequestsTimeout \<or> e = RequestsConnectionError)"

text \<open>
  The health report that \<open>process_camera\<close> sends for a camera whose capture failed, and
  what the outcome event of a camera has to be.
\<close>

definition failure_report :: "camera \<Rightarrow> event" where
  "failure_report camera =
     Report (camera_id camera) (''Failed to capture frame from '' @ rtsp_url camera)"

definition outcome_of :: "camera \<Rightarrow> event \<Rightarrow> bool" where
  "outcome_of camera ev = (is_outcome ev \<and> event_source ev = camera_id camera)"



subsection \<open>Scenarios\<close>

text \<open>
  Two cameras and concrete environments, on which the theorems below are instantiated.
  In \<open>env_a_down\<close> camera A times out on every capture and camera B delivers a frame;
  the endpoints answer with status 200.
\<close>

definition cam_a :: camera where
  "cam_a = \<lparr>camera_id = ''camA'', rtsp_url = ''rtsp://a'', name = None\<rparr>"

definition cam_b :: camera where
  "cam_b = \<lparr>camera_id = ''camB'', rtsp_url = ''rtsp://b'', name = Some ''door''\<rparr>"

definition demo_config :: "int \<Rightarrow> config" where
  "demo_config n = \<lparr>api_url = ''http://api'', api_key = ''secret'',
     cameras = [cam_a, cam_b], interval = 2, max_retries = n\<rparr>"

definition detection_ok :: http_outcome where
  "detection_ok =
     Response 200 (Some (JDict [(''objects'', JList []), (''processing_time_ms'', JNum 12)]))"

definition env_a_down :: env where
  "env_a_down =
     \<lparr>ffmpeg = (\<lambda>url n. if url = ''rtsp://a'' then (RunRaises TimeoutExpired, 10)
                         else (CompletedProcess 0 ''JPEG'' True, 1 / 2)),
      detect = (\<lambda>cid frame n. (detection_ok, 1 / 4)),
      health = (\<lambda>cid msg n. (Response 200 None, 1 / 4)),
      signal_during = (\<lambda>t. False)\<rparr>"

text \<open>In \<open>env_third_time\<close> the first two captures of the run fail and the later ones succeed.\<close>

definition env_third_time :: env where
  "env_third_time =
     \<lparr>ffmpeg = (\<lambda>url n. if n < 2 then (CompletedProcess 1 [] True, 1)
                         else (CompletedProcess 0 ''JPEG'' True, 1)),
      detect = (\<lambda>cid frame n. (detection_ok, 1 / 4)),
      health = (\<lambda>cid msg n. (Response 200 None, 1 / 4)),
      signal_during = (\<lambda>t. False)\<rparr>"

text \<open>
  \<open>started\<close> is the world right after \<open>run\<close> has set the flag. In \<open>env_capture out\<close>
  every capture ends with \<open>out\<close>; in \<open>env_unauthorized\<close> every capture delivers a frame
  and the detection endpoint answers 401.
\<close>

definition started :: world where
  "started = client_init\<lparr>running := True\<rparr>"

definition env_capture :: "proc_outcome \<Rightarrow> env" where
  "env_capture out =
     \<lparr>ffmpeg = (\<lambda>url n. (out, 1)),
      detect = (\<lambda>cid frame n. (detection_ok, 1 / 4)),
      health = (\<lambda>cid msg n. (Response 200 None, 1 / 4)),
      signal_during = (\<lambda>t. False)\<rparr>"

definition env_unauthorized :: env where
  "env_unauthorized =
     \<lparr>ffmpeg = (\<lambda>url n. (CompletedProcess 0 ''JPEG'' True, 1 / 2)),
      detect = (\<lambda>cid frame n. (Response 401 None, 1 / 4)),
      health = (\<lambda>cid msg n. (Response 200 None, 1 / 4)),
      signal_during = (\<lambda>t. False)\<rparr>"






definition a_timed_out :: world where
  "a_timed_out = \<lparr>running = True, clock = 10, tick = 1, n_capture = 1, n_detect = 0,
     n_health = 0, trace = [Capture ''rtsp://a'']\<rparr>"


definition a_captured :: world where
  "a_captured = \<lparr>running = True, clock = 1 / 2, tick = 1, n_capture = 1, n_detect = 0,
     n_health = 0, trace = [Capture ''rtsp://a'']\<rparr>"

definition a_submitted :: world where
  "a_submitted = \<lparr>running = True, clock = 3 / 4, tick = 2, n_capture = 1, n_detect = 1,
     n_health = 0, trace = [Capture ''rtsp://a'', Submit ''camA'' ''JPEG'']\<rparr>"

text \<open>
  \<open>args_inline\<close> names one camera on the command line; \<open>startup_none\<close> has no
  configuration file and no \<^verbatim>\<open>CAMERAS\<close> variable. \<open>args_huge_interval\<close> is
  \<^verbatim>\<open>--interval 1e10\<close> on top of \<open>args_inline\<close>, and \<open>huge_interval_config\<close> the
  configuration that \<open>main\<close> builds from it, at the type of the scheduler.
\<close>

definition args_inline :: args where
  "args_inline = \<lparr>arg_api_url = Some ''http://api/'', arg_api_key = Some ''secret'',
     arg_config = None, arg_cameras = Some [''camA:rtsp://a''], arg_interval = 2,
     arg_max_retries = 5\<rparr>"

definition args_huge_interval :: args where
  "args_huge_interval = args_inline\<lparr>arg_interval := 10 ^ 10\<rparr>"

definition huge_interval_config :: config where
  "huge_interval_config = \<lparr>api_url = ''http://api'', api_key = ''secret'',
     cameras = [cam_a], interval = 10 ^ 10, max_retries = 5\<rparr>"

definition startup_none :: startup where
  "startup_none = \<lparr>config_file = (\<lambda>path. Inl FileNotFoundError), env_CAMERAS = Inr (JList [])\<rparr>"


section \<open>Properties\<close>

subsection \<open>Blocking operations and traces\<close>

lemma running_blocking [simp]:
  "running (blocking E ev d w) = (running w \<and> \<not> signal_during E (tick w))"
  by (simp add: blocking_def handle_shutdown_def Let_def)

lemma clock_blocking [simp]: "clock (blocking E ev d w) = clock w + d"
  by (simp add: blocking_def handle_shutdown_def Let_def)

lemma tick_blocking [simp]: "tick (blocking E ev d w) = Suc (tick w)"
  by (simp add: blocking_def handle_shutdown_def Let_def)

lemma trace_blocking [simp]: "trace (blocking E ev d w) = trace w @ [ev]"
  by (simp add: blocking_def handle_shutdown_def Let_def)

lemma n_capture_blocking [simp]: "n_capture (blocking E ev d w) = n_capture w"
  by (simp add: blocking_def handle_shutdown_def Let_def)

lemma n_detect_blocking [simp]: "n_detect (blocking E ev d w) = n_detect w"
  by (simp add: blocking_def handle_shutdown_def Let_def)

lemma n_health_blocking [simp]: "n_health (blocking E ev d w) = n_health w"
  by (simp add: blocking_def handle_shutdown_def Let_def)

lemma captures_backoff_events:
  "length (filter is_capture (backoff_events url idxs)) = length idxs"
  by (induction idxs) (simp_all add: backoff_events_def)

lemma sleeps_of_append: "sleeps_of (xs @ ys) = sleeps_of xs @ sleeps_of ys"
  by (induction xs rule: sleeps_of.induct) simp_all

lemma sleeps_backoff_events:
  "sleeps_of (backoff_events url idxs) = map (\<lambda>i. 2 ^ i) idxs"
  by (induction idxs) (simp_all add: backoff_events_def)

lemma events_since_append: "trace w' = trace w @ evs \<Longrightarrow> events_since w w' = evs"
  by (simp add: events_since_def)

text \<open>The operations on a world written out as a record, for evaluating scenarios.\<close>

lemma range1: "py_range 1 = [0]" by (simp add: py_range_def)

lemma range5: "py_range 5 = [0, 1, 2, 3, 4]"
  by (simp add: py_range_def upt_conv_Cons)

lemma blocking_record:
  "blocking E ev d \<lparr>running = r, clock = c, tick = t, n_capture = a, n_detect = b,
      n_health = h, trace = tr\<rparr>
   = \<lparr>running = (r \<and> \<not> signal_during E t), clock = c + d, tick = Suc t, n_capture = a,
      n_detect = b, n_health = h, trace = tr @ [ev]\<rparr>"
  by (simp add: blocking_def handle_shutdown_def Let_def)

lemma capture_frame_record:
  assumes "ffmpeg E url a = (out, d)" and "capture_frame_ret out = Inr res"
  shows "capture_frame E url \<lparr>running = r, clock = c, tick = t, n_capture = a, n_detect = b,
      n_health = h, trace = tr\<rparr>
   = Inr (res, \<lparr>running = (r \<and> \<not> signal_during E t), clock = c + d, tick = Suc t,
      n_capture = Suc a, n_detect = b, n_health = h, trace = tr @ [Capture url]\<rparr>)"
  using assms by (simp add: capture_frame_def blocking_record)


lemma send_frame_record:
  assumes "detect E cid frame b = (out, d)" and "send_frame_ret out = Inr res"
  shows "send_frame E cfg cid frame \<lparr>running = r, clock = c, tick = t, n_capture = a,
      n_detect = b, n_health = h, trace = tr\<rparr>
   = Inr (res, \<lparr>running = (r \<and> \<not> signal_during E t), clock = c + d, tick = Suc t,
      n_capture = a, n_detect = Suc b, n_health = h, trace = tr @ [Submit cid frame]\<rparr>)"
  using assms by (simp add: send_frame_def blocking_record)


subsection \<open>The retry loop\<close>

lemma capture_frame_fail:
  assumes "capture_frame_ret (fst (ffmpeg E url (n_capture w))) = Inr r"
  shows "\<exists>w1. capture_frame E url w = Inr (r, w1) \<and> trace w1 = trace w @ [Capture url]
     \<and> n_capture w1 = Suc (n_capture w) \<and> tick w1 = Suc (tick w)"
  using assms by (cases "ffmpeg E url (n_capture w)") (simp add: capture_frame_def Let_def)

lemma retry_failures:
  assumes "\<forall>j<m. capture_frame_ret (fst (ffmpeg E url (n_capture w + j))) = Inr None"
    and "int (i + m) < max_retries cfg"
  shows "\<exists>w'. retry_attempts E cfg url ([i..<i + m] @ rest) w = retry_attempts E cfg url rest w'
           \<and> trace w' = trace w @ backoff_events url [i..<i + m]
           \<and> n_capture w' = n_capture w + m \<and> tick w' = tick w + 2 * m"
  using assms
proof (induction m arbitrary: i w)
  case 0
  show ?case by (rule exI [of _ w]) (simp add: backoff_events_def)
next
  case (Suc m)
  from Suc.prems(1) have "capture_frame_ret (fst (ffmpeg E url (n_capture w))) = Inr None"
    by (metis add.right_neutral zero_less_Suc)
  from capture_frame_fail [OF this] obtain w1 where
    w1: "capture_frame E url w = Inr (None, w1)" "trace w1 = trace w @ [Capture url]"
      "n_capture w1 = Suc (n_capture w)" "tick w1 = Suc (tick w)" by blast
  define w2 where "w2 = sleep E (2 ^ i) w1"
  have w2: "trace w2 = trace w @ [Capture url, Sleep (2 ^ i)]" "n_capture w2 = Suc (n_capture w)"
     "tick w2 = tick w + 2"
    by (simp_all add: w2_def sleep_def w1)
  have lt: "int i < max_retries cfg - 1" using Suc.prems(2) by simp
  have unfold: "[i..<i + Suc m] = i # [Suc i..<Suc i + m]"
    by (simp add: upt_conv_Cons)
  have step: "retry_attempts E cfg url ([i..<i + Suc m] @ rest) w
      = retry_attempts E cfg url ([Suc i..<Suc i + m] @ rest) w2"
    unfolding unfold by (simp add: w1 lt w2_def)
  have "\<forall>j<m. capture_frame_ret (fst (ffmpeg E url (n_capture w2 + j))) = Inr None"
    using Suc.prems(1) by (simp add: w2) (metis Suc_less_eq add_Suc_right)
  moreover have "int (Suc i + m) < max_retries cfg" using Suc.prems(2) by simp
  ultimately obtain w' where w': "retry_attempts E cfg url ([Suc i..<Suc i + m] @ rest) w2 = retry_attempts E cfg url rest w'"
     "trace w' = trace w2 @ backoff_events url [Suc i..<Suc i + m]"
     "n_capture w' = n_capture w2 + m" "tick w' = tick w2 + 2 * m"
    using Suc.IH [of w2 "Suc i"] by blast
  have "backoff_events url [i..<i + Suc m] = [Capture url, Sleep (2 ^ i)] @ backoff_events url [Suc i..<Suc i + m]"
    unfolding unfold by (simp add: backoff_events_def)
  with step w' w2 show ?case by auto
qed

text \<open>
  Claim C1. With \<open>max_retries = N \<ge> 1\<close> and a source whose every capture fails,
  \<open>capture_frame_with_retry\<close> returns \<open>None\<close> after exactly \<open>N\<close> captures: attempt \<open>i\<close>
  (from 0) is followed by a sleep of \<open>2 ^ i\<close> seconds for \<open>i = 0, ..., N - 2\<close>, and the
  last attempt is followed by no sleep.
\<close>

theorem retry_always_failing:
  assumes N: "1 \<le> N" and cfg: "max_retries cfg = int N"
    and fails: "\<forall>n. capture_frame_ret (fst (ffmpeg E url n)) = Inr None"
  shows "\<exists>w'. capture_frame_with_retry E cfg url w = Inr (None, w')
           \<and> events_since w w' = backoff_events url [0..<N - 1] @ [Capture url]
           \<and> length (filter is_capture (events_since w w')) = N
           \<and> sleeps_of (events_since w w') = map (\<lambda>i. 2 ^ i) [0..<N - 1]
           \<and> last (events_since w w') = Capture url
           \<and> n_capture w' = n_capture w + N"
proof -
  have split: "[0..<N] = [0..<0 + (N - 1)] @ [N - 1]"
    using N by (cases N) simp_all
  have "\<forall>j<N - 1. capture_frame_ret (fst (ffmpeg E url (n_capture w + j))) = Inr None"
    using fails by simp
  moreover have "int (0 + (N - 1)) < max_retries cfg" using N cfg by simp
  ultimately obtain w1 where w1:
    "retry_attempts E cfg url ([0..<0 + (N - 1)] @ [N - 1]) w = retry_attempts E cfg url [N - 1] w1"
    "trace w1 = trace w @ backoff_events url [0..<0 + (N - 1)]"
    "n_capture w1 = n_capture w + (N - 1)"
    using retry_failures [of "N - 1" E url w 0 cfg "[N - 1]"] by blast
  from fails have "capture_frame_ret (fst (ffmpeg E url (n_capture w1))) = Inr None" by simp
  from capture_frame_fail [OF this] obtain w2 where w2:
    "capture_frame E url w1 = Inr (None, w2)" "trace w2 = trace w1 @ [Capture url]"
    "n_capture w2 = Suc (n_capture w1)" by blast
  have last_attempt: "retry_attempts E cfg url [N - 1] w1 = Inr (None, w2)"
    using w2(1) cfg N by simp
  have res: "capture_frame_with_retry E cfg url w = Inr (None, w2)"
    unfolding capture_frame_with_retry_def py_range_def cfg
    using split w1(1) last_attempt by simp
  have ev: "events_since w w2 = backoff_events url [0..<N - 1] @ [Capture url]"
    by (rule events_since_append) (simp add: w2 w1)
  have n: "n_capture w2 = n_capture w + N" using w2(3) w1(3) N by simp
  have SucN: "Suc (N - Suc 0) = N" using N by simp
  show ?thesis
    by (rule exI [of _ w2])
      (simp add: res ev n captures_backoff_events sleeps_of_append sleeps_backoff_events SucN)
qed

theorem retry_always_failing_witness:
  "\<exists>w'. capture_frame_with_retry env_a_down (demo_config 3) ''rtsp://a'' client_init = Inr (None, w')
     \<and> events_since client_init w' =
         [Capture ''rtsp://a'', Sleep 1, Capture ''rtsp://a'', Sleep 2, Capture ''rtsp://a'']
     \<and> length (filter is_capture (events_since client_init w')) = 3
     \<and> sleeps_of (events_since client_init w') = [1, 2]
     \<and> n_capture w' = 3"
proof -
  have "\<forall>n. capture_frame_ret (fst (ffmpeg env_a_down ''rtsp://a'' n)) = Inr None"
    by (simp add: env_a_down_def capture_frame_ret_def capture_frame_try_def)
  moreover have "max_retries (demo_config 3) = int 3" by (simp add: demo_config_def)
  ultimately obtain w' where
    "capture_frame_with_retry env_a_down (demo_config 3) ''rtsp://a'' client_init = Inr (None, w')"
    "events_since client_init w' = backoff_events ''rtsp://a'' [0..<3 - 1] @ [Capture ''rtsp://a'']"
    "length (filter is_capture (events_since client_init w')) = 3"
    "sleeps_of (events_since client_init w') = map (\<lambda>i. 2 ^ i) [0..<3 - 1]"
    "n_capture w' = n_capture client_init + 3"
    using retry_always_failing [of 3 "demo_config 3" env_a_down "''rtsp://a''" client_init]
    by auto
  moreover have "[0..<3 - 1] = [0, Suc 0]" by (simp add: upt_conv_Cons)
  ultimately show ?thesis
    by (intro exI [of _ w']) (simp add: backoff_events_def client_init_def)
qed

text \<open>
  Claim C4. With \<open>max_retries = N\<close> and \<open>1 \<le> k \<le> N\<close>, when the first \<open>k - 1\<close> captures
  fail and the \<open>k\<close>-th delivers a frame, \<open>capture_frame_with_retry\<close> returns that frame
  after exactly \<open>k\<close> captures; the successful capture is the last event, so no attempt
  and no sleep follows it.
\<close>

theorem retry_succeeds_at_k:
  assumes k: "1 \<le> k" "k \<le> N" and cfg: "max_retries cfg = int N"
    and fails: "\<forall>j<k - 1. capture_frame_ret (fst (ffmpeg E url (n_capture w + j))) = Inr None"
    and succeeds: "capture_frame_ret (fst (ffmpeg E url (n_capture w + (k - 1)))) = Inr (Some frame)"
  shows "\<exists>w'. capture_frame_with_retry E cfg url w = Inr (Some frame, w')
           \<and> events_since w w' = backoff_events url [0..<k - 1] @ [Capture url]
           \<and> length (filter is_capture (events_since w w')) = k
           \<and> sleeps_of (events_since w w') = map (\<lambda>i. 2 ^ i) [0..<k - 1]
           \<and> last (events_since w w') = Capture url
           \<and> n_capture w' = n_capture w + k"
proof -
  have split: "[0..<N] = [0..<0 + (k - 1)] @ ((k - 1) # [k..<N])"
  proof -
    have "[0..<N] = [0..<k - 1] @ [k - 1..<N]"
      using k upt_add_eq_append [of 0 "k - 1" "N - (k - 1)"] by simp
    moreover have "[k - 1..<N] = (k - 1) # [k..<N]"
      using k by (simp add: upt_conv_Cons)
    ultimately show ?thesis by simp
  qed
  have "int (0 + (k - 1)) < max_retries cfg" using k cfg by simp
  with fails obtain w1 where w1:
    "retry_attempts E cfg url ([0..<0 + (k - 1)] @ ((k - 1) # [k..<N])) w
       = retry_attempts E cfg url ((k - 1) # [k..<N]) w1"
    "trace w1 = trace w @ backoff_events url [0..<0 + (k - 1)]"
    "n_capture w1 = n_capture w + (k - 1)"
    using retry_failures [of "k - 1" E url w 0 cfg "(k - 1) # [k..<N]"] by blast
  from succeeds have "capture_frame_ret (fst (ffmpeg E url (n_capture w1))) = Inr (Some frame)"
    by (simp add: w1)
  from capture_frame_fail [OF this] obtain w2 where w2:
    "capture_frame E url w1 = Inr (Some frame, w2)" "trace w2 = trace w1 @ [Capture url]"
    "n_capture w2 = Suc (n_capture w1)" by blast
  have hit: "retry_attempts E cfg url ((k - 1) # [k..<N]) w1 = Inr (Some frame, w2)"
    using w2(1) by simp
  have res: "capture_frame_with_retry E cfg url w = Inr (Some frame, w2)"
    unfolding capture_frame_with_retry_def py_range_def cfg
    using split w1(1) hit by simp
  have ev: "events_since w w2 = backoff_events url [0..<k - 1] @ [Capture url]"
    by (rule events_since_append) (simp add: w2 w1)
  have n: "n_capture w2 = n_capture w + k" using w2(3) w1(3) k by simp
  have Suck: "Suc (k - Suc 0) = k" using k by simp
  show ?thesis
    by (rule exI [of _ w2])
      (simp add: res ev n captures_backoff_events sleeps_of_append sleeps_backoff_events Suck)
qed

theorem retry_succeeds_at_k_witness:
  "\<exists>w'. capture_frame_with_retry env_third_time (demo_config 5) ''rtsp://a'' client_init
           = Inr (Some ''JPEG'', w')
     \<and> events_since client_init w' =
         [Capture ''rtsp://a'', Sleep 1, Capture ''rtsp://a'', Sleep 2, Capture ''rtsp://a'']
     \<and> length (filter is_capture (events_since client_init w')) = 3
     \<and> n_capture w' = 3"
proof -
  have "\<forall>j<3 - 1. capture_frame_ret
          (fst (ffmpeg env_third_time ''rtsp://a'' (n_capture client_init + j))) = Inr None"
    by (simp add: env_third_time_def capture_frame_ret_def capture_frame_try_def client_init_def)
  moreover have "capture_frame_ret
      (fst (ffmpeg env_third_time ''rtsp://a'' (n_capture client_init + (3 - 1)))) = Inr (Some ''JPEG'')"
    by (simp add: env_third_time_def capture_frame_ret_def capture_frame_try_def client_init_def)
  moreover have "max_retries (demo_config 5) = int 5" by (simp add: demo_config_def)
  ultimately obtain w' where
    "capture_frame_with_retry env_third_time (demo_config 5) ''rtsp://a'' client_init
       = Inr (Some ''JPEG'', w')"
    "events_since client_init w' = backoff_events ''rtsp://a'' [0..<3 - 1] @ [Capture ''rtsp://a'']"
    "length (filter is_capture (events_since client_init w')) = 3"
    "n_capture w' = n_capture client_init + 3"
    using retry_succeeds_at_k [of 3 5 "demo_config 5" env_third_time "''rtsp://a''" client_init "''JPEG''"]
    by auto
  moreover have "[0..<3 - 1] = [0, Suc 0]" by (simp add: upt_conv_Cons)
  ultimately show ?thesis
    by (intro exI [of _ w']) (simp add: backoff_events_def client_init_def)
qed

text \<open>
  Claim C10. When \<open>max_retries\<close> is zero or negative, \<open>capture_frame_with_retry\<close> returns
  \<open>None\<close> and leaves the world as it was: no capture is made and no sleep is taken.
\<close>

theorem retry_nonpositive:
  assumes "max_retries cfg \<le> 0"
  shows "capture_frame_with_retry E cfg url w = Inr (None, w)"
  using assms by (simp add: capture_frame_with_retry_def py_range_def)

theorem retry_nonpositive_witness:
  "capture_frame_with_retry env_a_down (demo_config 0) ''rtsp://b'' client_init
     = Inr (None, client_init)"
proof -
  have "max_retries (demo_config 0) \<le> 0" by (simp add: demo_config_def)
  then show ?thesis by (rule retry_nonpositive)
qed

subsection \<open>capture_frame\<close>

lemma capture_frame_ret_failure_class:
  "failure_class out \<Longrightarrow> capture_frame_ret out = Inr None"
  by (cases out) (auto simp: capture_frame_ret_def capture_frame_try_def)

lemma capture_frame_ret_Some:
  "capture_frame_ret out = Inr (Some frame) \<Longrightarrow> frame \<noteq> []"
  by (cases out) (auto simp: capture_frame_ret_def capture_frame_try_def split: if_splits)

text \<open>
  Claim C9. Whenever the capture tool is not installed, the run times out or the run
  produces no data (a payload of length zero), \<open>capture_frame\<close> returns \<open>None\<close>: it
  neither returns bytes nor raises, and all it did was the one capture.
\<close>

theorem capture_frame_failure_is_none:
  assumes "failure_class (fst (ffmpeg E url (n_capture w)))"
  shows "\<exists>w'. capture_frame E url w = Inr (None, w') \<and> events_since w w' = [Capture url]"
proof -
  from assms have "capture_frame_ret (fst (ffmpeg E url (n_capture w))) = Inr None"
    by (rule capture_frame_ret_failure_class)
  from capture_frame_fail [OF this] obtain w1 where
    "capture_frame E url w = Inr (None, w1)" "trace w1 = trace w @ [Capture url]" by blast
  then show ?thesis by (intro exI [of _ w1]) (simp add: events_since_append)
qed

theorem capture_frame_failure_is_none_witness:
  "(\<exists>w'. capture_frame (env_capture (RunRaises FileNotFoundError)) ''rtsp://a'' started
            = Inr (None, w') \<and> events_since started w' = [Capture ''rtsp://a''])
   \<and> (\<exists>w'. capture_frame (env_capture (RunRaises TimeoutExpired)) ''rtsp://a'' started
            = Inr (None, w') \<and> events_since started w' = [Capture ''rtsp://a''])
   \<and> (\<exists>w'. capture_frame (env_capture (CompletedProcess 0 [] True)) ''rtsp://a'' started
            = Inr (None, w') \<and> events_since started w' = [Capture ''rtsp://a''])"
proof (intro conjI)
  show "\<exists>w'. capture_frame (env_capture (RunRaises FileNotFoundError)) ''rtsp://a'' started
            = Inr (None, w') \<and> events_since started w' = [Capture ''rtsp://a'']"
    by (rule capture_frame_failure_is_none) (simp add: env_capture_def)
  show "\<exists>w'. capture_frame (env_capture (RunRaises TimeoutExpired)) ''rtsp://a'' started
            = Inr (None, w') \<and> events_since started w' = [Capture ''rtsp://a'']"
    by (rule capture_frame_failure_is_none) (simp add: env_capture_def)
  show "\<exists>w'. capture_frame (env_capture (CompletedProcess 0 [] True)) ''rtsp://a'' started
            = Inr (None, w') \<and> events_since started w' = [Capture ''rtsp://a'']"
    by (rule capture_frame_failure_is_none) (simp add: env_capture_def)
qed

subsection \<open>Well-behaved environments\<close>

lemma capture_frame_ret_total:
  assumes "\<forall>e. out = RunRaises e \<longrightarrow> is_Exception e"
  shows "\<exists>r. capture_frame_ret out = Inr r"
  using assms
  by (cases out) (auto simp: capture_frame_ret_def capture_frame_try_def)

lemma py_get_raises: "py_get v key dflt = Inl e \<Longrightarrow> e = AttributeError"
  by (cases v) simp_all

lemma py_len_raises: "py_len v = Inl e \<Longrightarrow> e = TypeError"
  by (cases v) simp_all

lemma send_frame_try_raises:
  assumes "\<forall>e. out = PostRaises e \<longrightarrow> is_Exception e" and "send_frame_try out = Inl e"
  shows "is_Exception e"
  using assms
  by (cases out)
    (auto simp: send_frame_try_def split: sum.splits option.splits if_splits
      dest!: py_get_raises py_len_raises)

lemma send_frame_ret_total:
  assumes "\<forall>e. out = PostRaises e \<longrightarrow> is_Exception e"
  shows "\<exists>r. send_frame_ret out = Inr r"
  using send_frame_try_raises [OF assms]
  by (cases "send_frame_try out") (auto simp: send_frame_ret_def)

lemma report_error_ret_total:
  assumes "\<forall>e. out = PostRaises e \<longrightarrow> is_Exception e"
  shows "report_error_ret out = Inr ()"
  using assms by (cases out) (auto simp: report_error_ret_def)

lemma capture_frame_shape:
  assumes "well_behaved E"
  shows "\<exists>r w1. capture_frame E url w = Inr (r, w1) \<and> trace w1 = trace w @ [Capture url]
           \<and> running w1 = (running w \<and> \<not> signal_during E (tick w))"
proof (cases "ffmpeg E url (n_capture w)")
  case (Pair out d)
  from assms Pair have "\<forall>e. out = RunRaises e \<longrightarrow> is_Exception e"
    unfolding well_behaved_def by (metis fst_conv)
  from capture_frame_ret_total [OF this] obtain r where r: "capture_frame_ret out = Inr r" ..
  then show ?thesis using Pair by (simp add: capture_frame_def)
qed

lemma send_frame_shape:
  assumes "well_behaved E"
  shows "\<exists>r w1. send_frame E cfg cid frame w = Inr (r, w1) \<and> trace w1 = trace w @ [Submit cid frame]
           \<and> running w1 = (running w \<and> \<not> signal_during E (tick w))"
proof (cases "detect E cid frame (n_detect w)")
  case (Pair out d)
  from assms Pair have "\<forall>e. out = PostRaises e \<longrightarrow> is_Exception e"
    unfolding well_behaved_def by (metis fst_conv)
  from send_frame_ret_total [OF this] obtain r where r: "send_frame_ret out = Inr r" ..
  then show ?thesis using Pair by (simp add: send_frame_def)
qed

lemma report_error_shape:
  assumes "well_behaved E"
  shows "\<exists>w1. report_error E cfg cid msg w = Inr w1 \<and> trace w1 = trace w @ [Report cid msg]
           \<and> running w1 = (running w \<and> \<not> signal_during E (tick w))"
proof (cases "health E cid msg (n_health w)")
  case (Pair out d)
  from assms Pair have "\<forall>e. out = PostRaises e \<longrightarrow> is_Exception e"
    unfolding well_behaved_def by (metis fst_conv)
  from report_error_ret_total [OF this] have "report_error_ret out = Inr ()" .
  then show ?thesis using Pair by (simp add: report_error_def)
qed

lemma retry_attempts_shape:
  assumes "well_behaved E"
  shows "\<exists>r w1 evs. retry_attempts E cfg url idxs w = Inr (r, w1) \<and> trace w1 = trace w @ evs
           \<and> (\<forall>ev\<in>set evs. \<not> is_outcome ev)
           \<and> (quiet E \<longrightarrow> running w1 = running w)"
proof (induction idxs arbitrary: w)
  case Nil
  show ?case by simp
next
  case (Cons attempt rest)
  from capture_frame_shape [OF assms, of url w] obtain r w1 where c:
    "capture_frame E url w = Inr (r, w1)" "trace w1 = trace w @ [Capture url]"
    "running w1 = (running w \<and> \<not> signal_during E (tick w))" by blast
  show ?case
  proof (cases r)
    case (Some frame)
    with c show ?thesis
      by (intro exI [of _ r] exI [of _ w1] exI [of _ "[Capture url]"])
        (simp add: is_outcome_def quiet_def)
  next
    case None
    define w2 where "w2 = (if int attempt < max_retries cfg - 1 then sleep E (2 ^ attempt) w1 else w1)"
    obtain pre where pre: "trace w2 = trace w @ pre" "\<forall>ev\<in>set pre. \<not> is_outcome ev"
      "quiet E \<longrightarrow> running w2 = running w"
    proof (cases "int attempt < max_retries cfg - 1")
      case True
      show ?thesis
        by (rule that [of "[Capture url, Sleep (2 ^ attempt)]"])
          (simp_all add: w2_def True sleep_def c is_outcome_def quiet_def)
    next
      case False
      show ?thesis
        by (rule that [of "[Capture url]"])
          (simp_all add: w2_def False c is_outcome_def quiet_def)
    qed
    from Cons.IH [of w2] obtain r' w3 evs where ih:
      "retry_attempts E cfg url rest w2 = Inr (r', w3)" "trace w3 = trace w2 @ evs"
      "\<forall>ev\<in>set evs. \<not> is_outcome ev" "quiet E \<longrightarrow> running w3 = running w2" by blast
    have "retry_attempts E cfg url (attempt # rest) w = Inr (r', w3)"
      using c(1) None ih(1) by (simp add: w2_def)
    with pre ih show ?thesis
      by (intro exI [of _ r'] exI [of _ w3] exI [of _ "pre @ evs"]) auto
  qed
qed

lemma process_camera_shape:
  assumes "well_behaved E"
  shows "\<exists>r wr w' evs ev. capture_frame_with_retry E cfg (rtsp_url c) w = Inr (r, wr)
           \<and> process_camera E cfg c w = Inr w' \<and> trace w' = trace w @ evs @ [ev]
           \<and> (\<forall>e\<in>set evs. \<not> is_outcome e) \<and> outcome_of c ev
           \<and> (r = None \<longrightarrow> ev = failure_report c)
           \<and> (quiet E \<longrightarrow> running w' = running w)"
proof -
  from retry_attempts_shape [OF assms, of cfg "rtsp_url c" "py_range (max_retries cfg)" w]
  obtain r w1 evs where r:
    "capture_frame_with_retry E cfg (rtsp_url c) w = Inr (r, w1)" "trace w1 = trace w @ evs"
    "\<forall>ev\<in>set evs. \<not> is_outcome ev" "quiet E \<longrightarrow> running w1 = running w"
    unfolding capture_frame_with_retry_def by blast
  show ?thesis
  proof (cases r)
    case None
    from report_error_shape [OF assms, of cfg "camera_id c"
        "''Failed to capture frame from '' @ rtsp_url c" w1]
    obtain w2 where w2:
      "report_error E cfg (camera_id c) (''Failed to capture frame from '' @ rtsp_url c) w1 = Inr w2"
      "trace w2 = trace w1 @ [failure_report c]"
      "running w2 = (running w1 \<and> \<not> signal_during E (tick w1))"
      unfolding failure_report_def by blast
    have "process_camera E cfg c w = Inr w2"
      using r(1) None w2(1) by (simp add: process_camera_def)
    moreover have "outcome_of c (failure_report c)"
      by (simp add: outcome_of_def failure_report_def is_outcome_def)
    ultimately show ?thesis using r w2
      by (intro exI [of _ r] exI [of _ w1] exI [of _ w2] exI [of _ evs]
          exI [of _ "failure_report c"])
        (simp add: quiet_def)
  next
    case (Some frame)
    from send_frame_shape [OF assms, of cfg "camera_id c" frame w1]
    obtain res w2 where w2:
      "send_frame E cfg (camera_id c) frame w1 = Inr (res, w2)"
      "trace w2 = trace w1 @ [Submit (camera_id c) frame]"
      "running w2 = (running w1 \<and> \<not> signal_during E (tick w1))" by blast
    have "process_camera E cfg c w = Inr w2"
      using r(1) Some w2(1) by (simp add: process_camera_def)
    moreover have "outcome_of c (Submit (camera_id c) frame)"
      by (simp add: outcome_of_def is_outcome_def)
    ultimately show ?thesis using r w2 Some
      by (intro exI [of _ r] exI [of _ w1] exI [of _ w2] exI [of _ evs]
          exI [of _ "Submit (camera_id c) frame"])
        (simp add: quiet_def)
  qed
qed

lemma filter_outcome_segment:
  assumes "\<forall>e\<in>set evs. \<not> is_outcome e" and "is_outcome ev"
  shows "filter is_outcome (evs @ [ev] @ later) = ev # filter is_outcome later"
  using assms by (simp add: filter_empty_conv)

lemma process_cameras_shape:
  assumes "well_behaved E" and "quiet E" and "running w"
  shows "\<exists>w' evs. process_cameras E cfg cams w = Inr w' \<and> trace w' = trace w @ evs
           \<and> running w' \<and> list_all2 outcome_of cams (filter is_outcome evs)"
  using assms(3)
proof (induction cams arbitrary: w)
  case Nil
  then show ?case by simp
next
  case (Cons c cams)
  from process_camera_shape [OF assms(1), of cfg c w] obtain w1 evs ev where c:
    "process_camera E cfg c w = Inr w1" "trace w1 = trace w @ evs @ [ev]"
    "\<forall>e\<in>set evs. \<not> is_outcome e" "outcome_of c ev" "quiet E \<longrightarrow> running w1 = running w"
    by blast
  have run1: "running w1" using c(5) assms(2) Cons.prems by simp
  from Cons.IH [OF run1] obtain w' later where ih:
    "process_cameras E cfg cams w1 = Inr w'" "trace w' = trace w1 @ later" "running w'"
    "list_all2 outcome_of cams (filter is_outcome later)" by blast
  have ev: "is_outcome ev" using c(4) by (simp add: outcome_of_def)
  have "process_cameras E cfg (c # cams) w = Inr w'"
    using Cons.prems c(1) ih(1) by simp
  moreover have "trace w' = trace w @ (evs @ [ev] @ later)" using c(2) ih(2) by simp
  moreover have "list_all2 outcome_of (c # cams) (filter is_outcome (evs @ [ev] @ later))"
    unfolding filter_outcome_segment [OF c(3) ev] using c(4) ih(4) by simp
  ultimately show ?case using ih(3) by blast
qed

lemma process_cameras_stopped: "\<not> running w \<Longrightarrow> process_cameras E cfg cams w = Inr w"
  by (cases cams) simp_all

lemma process_cameras_append:
  "process_cameras E cfg (xs @ ys) w =
     (case process_cameras E cfg xs w of Inl e \<Rightarrow> Inl e | Inr w1 \<Rightarrow> process_cameras E cfg ys w1)"
proof (induction xs arbitrary: w)
  case Nil
  show ?case by simp
next
  case (Cons x xs)
  show ?case
  proof (cases "running w")
    case False
    then show ?thesis by (simp add: process_cameras_stopped)
  next
    case True
    then show ?thesis using Cons.IH by (simp split: sum.splits)
  qed
qed

subsection \<open>A failed source within the cycle\<close>

text \<open>
  Claim C5. Let the camera at position \<open>i\<close> of the configured list be one whose
  acquisition, after all its retries, fails. Its processing ends with exactly one outcome
  request: the health report with its identifier and the failure message, and no
  detection submission. When no shutdown signal arrives, the pass over the list yields
  one outcome request per camera in the configured order, so each camera after position
  \<open>i\<close> is processed in the same cycle.
\<close>

theorem failed_source_reported_and_cycle_continues:
  assumes wb: "well_behaved E" and q: "quiet E" and run: "running w"
    and i: "i < length cams"
    and pre: "process_cameras E cfg (take i cams) w = Inr wi"
    and fail: "capture_frame_with_retry E cfg (rtsp_url (cams ! i)) wi = Inr (None, wr)"
  shows "(\<exists>w1. process_camera E cfg (cams ! i) wi = Inr w1
            \<and> filter is_outcome (events_since wi w1) = [failure_report (cams ! i)])
       \<and> (\<exists>w'. process_cameras E cfg cams w = Inr w'
            \<and> length (filter is_outcome (events_since w w')) = length cams
            \<and> filter is_outcome (events_since w w') ! i = failure_report (cams ! i)
            \<and> (\<forall>j<length cams. is_outcome (filter is_outcome (events_since w w') ! j)
                  \<and> event_source (filter is_outcome (events_since w w') ! j) = camera_id (cams ! j)))"
proof -
  from process_cameras_shape [OF wb q run, of cfg "take i cams"] pre obtain evs1 where p1:
    "trace wi = trace w @ evs1" "running wi"
    "list_all2 outcome_of (take i cams) (filter is_outcome evs1)" by auto
  from process_camera_shape [OF wb, of cfg "cams ! i" wi] fail obtain w1 evsA ev where a:
    "process_camera E cfg (cams ! i) wi = Inr w1" "trace w1 = trace wi @ evsA @ [ev]"
    "\<forall>e\<in>set evsA. \<not> is_outcome e" "outcome_of (cams ! i) ev" "ev = failure_report (cams ! i)"
    "quiet E \<longrightarrow> running w1 = running wi" by auto
  have ev: "is_outcome ev" using a(4) by (simp add: outcome_of_def)
  have run1: "running w1" using a(6) q p1(2) by simp
  from process_cameras_shape [OF wb q run1, of cfg "drop (Suc i) cams"] obtain w' evs3 where p3:
    "process_cameras E cfg (drop (Suc i) cams) w1 = Inr w'" "trace w' = trace w1 @ evs3"
    "list_all2 outcome_of (drop (Suc i) cams) (filter is_outcome evs3)" by blast
  have split: "cams = take i cams @ cams ! i # drop (Suc i) cams"
    using i by (simp add: id_take_nth_drop)
  have all: "process_cameras E cfg cams w = Inr w'"
    using pre p1(2) a(1) p3(1)
    by (subst split) (simp add: process_cameras_append)
  have evA: "events_since wi w1 = evsA @ [ev]"
    by (rule events_since_append) (simp add: a(2))
  have first: "filter is_outcome (events_since wi w1) = [failure_report (cams ! i)]"
    using a(3) a(5) ev by (simp add: evA filter_empty_conv)
  have evs: "events_since w w' = evs1 @ evsA @ [ev] @ evs3"
    by (rule events_since_append) (simp add: p3(2) a(2) p1(1))
  have outs: "filter is_outcome (events_since w w')
      = filter is_outcome evs1 @ ev # filter is_outcome evs3"
    unfolding evs using filter_outcome_segment [OF a(3) ev] by simp
  have len1: "length (filter is_outcome evs1) = i"
    using p1(3) i by (simp add: list_all2_lengthD [symmetric])
  have la: "list_all2 outcome_of cams (filter is_outcome (events_since w w'))"
    unfolding outs by (subst split) (intro list_all2_appendI p1(3), simp add: a(4) p3(3))
  have len: "length (filter is_outcome (events_since w w')) = length cams"
    using la by (simp add: list_all2_lengthD)
  have nth: "outcome_of (cams ! j) (filter is_outcome (events_since w w') ! j)"
    if "j < length cams" for j
    using la that by (rule list_all2_nthD)
  have at_i: "filter is_outcome (events_since w w') ! i = failure_report (cams ! i)"
    unfolding outs using len1 a(5) by (simp add: nth_append)
  have each: "\<forall>j<length cams. is_outcome (filter is_outcome (events_since w w') ! j)
       \<and> event_source (filter is_outcome (events_since w w') ! j) = camera_id (cams ! j)"
    using nth by (simp add: outcome_of_def)
  have "\<exists>w1. process_camera E cfg (cams ! i) wi = Inr w1
      \<and> filter is_outcome (events_since wi w1) = [failure_report (cams ! i)]"
    using a(1) first by (intro exI [of _ w1]) simp
  moreover have "\<exists>w'. process_cameras E cfg cams w = Inr w'
      \<and> length (filter is_outcome (events_since w w')) = length cams
      \<and> filter is_outcome (events_since w w') ! i = failure_report (cams ! i)
      \<and> (\<forall>j<length cams. is_outcome (filter is_outcome (events_since w w') ! j)
            \<and> event_source (filter is_outcome (events_since w w') ! j) = camera_id (cams ! j))"
    using all len at_i each by (intro exI [of _ w']) simp
  ultimately show ?thesis by (rule conjI)
qed

lemma well_behaved_env_a_down: "well_behaved env_a_down"
  by (simp add: well_behaved_def env_a_down_def detection_ok_def)

lemma a_down_retry:
  "capture_frame_with_retry env_a_down (demo_config 1) (rtsp_url ([cam_a, cam_b] ! 0)) started
     = Inr (None, a_timed_out)"
  by (simp add: capture_frame_with_retry_def range1 demo_config_def cam_a_def started_def
      client_init_def a_timed_out_def env_a_down_def
      capture_frame_record [where out = "RunRaises TimeoutExpired" and d = 10 and res = None]
      capture_frame_ret_def capture_frame_try_def)

theorem failed_source_reported_and_cycle_continues_witness:
  "(\<exists>w1. process_camera env_a_down (demo_config 1) cam_a started = Inr w1
      \<and> filter is_outcome (events_since started w1)
          = [Report ''camA'' ''Failed to capture frame from rtsp://a''])
   \<and> (\<exists>w'. process_cameras env_a_down (demo_config 1) [cam_a, cam_b] started = Inr w'
      \<and> length (filter is_outcome (events_since started w')) = 2
      \<and> filter is_outcome (events_since started w') ! 0
          = Report ''camA'' ''Failed to capture frame from rtsp://a''
      \<and> event_source (filter is_outcome (events_since started w') ! 1) = ''camB'')"
proof -
  have q: "quiet env_a_down" by (simp add: quiet_def env_a_down_def)
  have r: "running started" by (simp add: started_def client_init_def)
  have i: "0 < length [cam_a, cam_b]" by simp
  have pre: "process_cameras env_a_down (demo_config 1) (take 0 [cam_a, cam_b]) started
      = Inr started" by simp
  from failed_source_reported_and_cycle_continues
    [OF well_behaved_env_a_down q r i pre a_down_retry]
  obtain w1 w' where
    a: "process_camera env_a_down (demo_config 1) ([cam_a, cam_b] ! 0) started = Inr w1"
      "filter is_outcome (events_since started w1) = [failure_report ([cam_a, cam_b] ! 0)]"
    and b: "process_cameras env_a_down (demo_config 1) [cam_a, cam_b] started = Inr w'"
      "length (filter is_outcome (events_since started w')) = length [cam_a, cam_b]"
      "filter is_outcome (events_since started w') ! 0 = failure_report ([cam_a, cam_b] ! 0)"
    and c: "\<forall>j<length [cam_a, cam_b].
        is_outcome (filter is_outcome (events_since started w') ! j) \<and>
        event_source (filter is_outcome (events_since started w') ! j)
          = camera_id ([cam_a, cam_b] ! j)"
    by (elim conjE exE)
  from c have c1: "event_source (filter is_outcome (events_since started w') ! 1) = ''camB''"
    by (simp add: cam_b_def)
  have msg: "failure_report ([cam_a, cam_b] ! 0)
      = Report ''camA'' ''Failed to capture frame from rtsp://a''"
    by (simp add: failure_report_def cam_a_def)
  have first: "\<exists>w1. process_camera env_a_down (demo_config 1) cam_a started = Inr w1
      \<and> filter is_outcome (events_since started w1)
          = [Report ''camA'' ''Failed to capture frame from rtsp://a'']"
    using a msg by (intro exI [of _ w1]) simp
  have second: "\<exists>w'. process_cameras env_a_down (demo_config 1) [cam_a, cam_b] started = Inr w'
      \<and> length (filter is_outcome (events_since started w')) = 2
      \<and> filter is_outcome (events_since started w') ! 0
          = Report ''camA'' ''Failed to capture frame from rtsp://a''
      \<and> event_source (filter is_outcome (events_since started w') ! 1) = ''camB''"
    using b(2,3) c1 msg by (intro exI [of _ w'] conjI) (rule b(1), simp_all)
  from first second show ?thesis by (rule conjI)
qed

subsection \<open>A failed submission\<close>

lemma send_frame_ret_submission_error:
  "submission_error out \<Longrightarrow> send_frame_ret out = Inr None"
  by (cases out) (auto simp: send_frame_ret_def send_frame_try_def)

lemma capture_frame_counters:
  "capture_frame E url w = Inr (r, w1) \<Longrightarrow> n_health w1 = n_health w \<and> n_detect w1 = n_detect w"
  by (cases "ffmpeg E url (n_capture w)")
    (auto simp: capture_frame_def split: sum.splits)

lemma retry_attempts_counters:
  "retry_attempts E cfg url idxs w = Inr (r, w1) \<Longrightarrow>
     n_health w1 = n_health w \<and> n_detect w1 = n_detect w"
proof (induction idxs arbitrary: w)
  case Nil
  then show ?case by simp
next
  case (Cons attempt rest)
  show ?case
  proof (cases "capture_frame E url w")
    case (Inl e)
    with Cons.prems show ?thesis by simp
  next
    case (Inr p)
    obtain r0 w0 where p: "p = (r0, w0)" by (cases p)
    from capture_frame_counters [of E url w r0 w0] Inr p
    have c0: "n_health w0 = n_health w \<and> n_detect w0 = n_detect w" by simp
    show ?thesis
    proof (cases r0)
      case (Some frame)
      with Cons.prems Inr p c0 show ?thesis by simp
    next
      case None
      define w2 where "w2 = (if int attempt < max_retries cfg - 1 then sleep E (2 ^ attempt) w0 else w0)"
      have c2: "n_health w2 = n_health w \<and> n_detect w2 = n_detect w"
        using c0 by (simp add: w2_def sleep_def)
      have "retry_attempts E cfg url rest w2 = Inr (r, w1)"
        using Cons.prems Inr p None by (simp add: w2_def)
      from Cons.IH [OF this] c2 show ?thesis by simp
    qed
  qed
qed

lemma send_frame_ret_exception:
  assumes "\<forall>e. out = PostRaises e \<longrightarrow> is_Exception e"
  shows "\<exists>res. send_frame_ret out = Inr res \<and> (submission_error out \<longrightarrow> res = None)"
proof -
  from send_frame_ret_total [OF assms] obtain res where "send_frame_ret out = Inr res" ..
  then show ?thesis using send_frame_ret_submission_error [of out] by auto
qed

text \<open>
  Claim C6. Let the capture for a camera deliver a frame, and let the request to the
  detection endpoint end in any way but a \<^verbatim>\<open>BaseException\<close>: with a response of any
  status or with an exception. Then \<open>send_frame\<close> does not raise, and it returns \<open>None\<close>
  in each failure class (status 401, 404 or another status than 200, a timeout, a
  connection failure). \<open>process_camera\<close> returns normally after that one request, having
  sent no health report, in a world that is fixed by the duration of the request and
  the signals: the result of the submission has no part in it, nor in the flag. The loop
  over the cameras goes on with the next one from that world.
\<close>

theorem submission_never_alters_cycle:
  assumes cap: "capture_frame_with_retry E cfg (rtsp_url c) w = Inr (Some frame, w1)"
    and od: "detect E (camera_id c) frame (n_detect w1) = (out, d)"
    and ok: "\<forall>e. out = PostRaises e \<longrightarrow> is_Exception e"
    and w2: "w2 = blocking E (Submit (camera_id c) frame) d (w1\<lparr>n_detect := Suc (n_detect w1)\<rparr>)"
  shows "(\<exists>res. send_frame E cfg (camera_id c) frame w1 = Inr (res, w2)
            \<and> (submission_error out \<longrightarrow> res = None))
       \<and> process_camera E cfg c w = Inr w2
       \<and> events_since w1 w2 = [Submit (camera_id c) frame]
       \<and> n_health w2 = n_health w
       \<and> running w2 = (running w1 \<and> \<not> signal_during E (tick w1))
       \<and> (running w \<longrightarrow>
            process_cameras E cfg (c # rest) w = process_cameras E cfg rest w2)"
proof -
  from send_frame_ret_exception [OF ok] obtain res where ret:
    "send_frame_ret out = Inr res" "submission_error out \<longrightarrow> res = None" by blast
  have sf: "send_frame E cfg (camera_id c) frame w1 = Inr (res, w2)"
    by (simp add: send_frame_def od ret(1) w2)
  have pc: "process_camera E cfg c w = Inr w2"
    by (simp add: process_camera_def cap sf)
  have h1: "n_health w1 = n_health w"
    using cap retry_attempts_counters unfolding capture_frame_with_retry_def by blast
  have ev: "events_since w1 w2 = [Submit (camera_id c) frame]"
    by (rule events_since_append) (simp add: w2)
  have first: "\<exists>res. send_frame E cfg (camera_id c) frame w1 = Inr (res, w2)
      \<and> (submission_error out \<longrightarrow> res = None)"
    using sf ret(2) by (intro exI [of _ res]) simp
  have rest: "n_health w2 = n_health w"
    "running w2 = (running w1 \<and> \<not> signal_during E (tick w1))"
    by (simp_all add: w2 h1)
  have "running w \<longrightarrow> process_cameras E cfg (c # rest) w = process_cameras E cfg rest w2"
    by (simp add: pc)
  with first pc ev rest show ?thesis by (intro conjI)
qed

theorem submission_never_alters_cycle_witness:
  "(\<exists>w1 w2. capture_frame_with_retry env_unauthorized (demo_config 5) ''rtsp://a'' started
               = Inr (Some ''JPEG'', w1)
      \<and> send_frame env_unauthorized (demo_config 5) ''camA'' ''JPEG'' w1 = Inr (None, w2)
      \<and> process_camera env_unauthorized (demo_config 5) cam_a started = Inr w2
      \<and> events_since w1 w2 = [Submit ''camA'' ''JPEG'']
      \<and> n_health w2 = 0 \<and> running w2
      \<and> process_cameras env_unauthorized (demo_config 5) [cam_a, cam_b] started
          = process_cameras env_unauthorized (demo_config 5) [cam_b] w2)
   \<and> (\<exists>w1 w2 res. capture_frame_with_retry env_a_down (demo_config 5) ''rtsp://b'' started
               = Inr (Some ''JPEG'', w1)
      \<and> send_frame env_a_down (demo_config 5) ''camB'' ''JPEG'' w1 = Inr (Some res, w2)
      \<and> process_camera env_a_down (demo_config 5) cam_b started = Inr w2
      \<and> events_since w1 w2 = [Submit ''camB'' ''JPEG'']
      \<and> n_health w2 = 0 \<and> running w2
      \<and> process_cameras env_a_down (demo_config 5) [cam_b, cam_a] started
          = process_cameras env_a_down (demo_config 5) [cam_a] w2)"
proof
  have up: "[0..<5] = 0 # [1..<5]" by (simp add: upt_conv_Cons)
  have r: "running started" by (simp add: started_def client_init_def)
  have h: "n_health started = 0" by (simp add: started_def client_init_def)
  have "\<exists>w1. capture_frame_with_retry env_unauthorized (demo_config 5) (rtsp_url cam_a) started
               = Inr (Some ''JPEG'', w1) \<and> running w1 \<and> tick w1 = 1"
    using up
    by (simp add: capture_frame_with_retry_def py_range_def demo_config_def capture_frame_def
        env_unauthorized_def capture_frame_ret_def capture_frame_try_def cam_a_def started_def
        client_init_def)
  then obtain w1 where cap:
    "capture_frame_with_retry env_unauthorized (demo_config 5) (rtsp_url cam_a) started
       = Inr (Some ''JPEG'', w1)" and r1: "running w1" by blast
  define w2 where "w2 = blocking env_unauthorized (Submit (camera_id cam_a) ''JPEG'') (1 / 4)
      (w1\<lparr>n_detect := Suc (n_detect w1)\<rparr>)"
  have od: "detect env_unauthorized (camera_id cam_a) ''JPEG'' (n_detect w1)
      = (Response 401 None, 1 / 4)"
    by (simp add: env_unauthorized_def)
  have ok: "\<forall>e. Response 401 None = PostRaises e \<longrightarrow> is_Exception e" by simp
  from submission_never_alters_cycle [OF cap od ok w2_def, of "[cam_b]"] obtain res where
    "send_frame env_unauthorized (demo_config 5) (camera_id cam_a) ''JPEG'' w1 = Inr (res, w2)"
    "submission_error (Response 401 None) \<longrightarrow> res = None"
    "process_camera env_unauthorized (demo_config 5) cam_a started = Inr w2"
    "events_since w1 w2 = [Submit (camera_id cam_a) ''JPEG'']"
    "n_health w2 = n_health started"
    "running w2 = (running w1 \<and> \<not> signal_during env_unauthorized (tick w1))"
    "running started \<longrightarrow> process_cameras env_unauthorized (demo_config 5) (cam_a # [cam_b]) started
       = process_cameras env_unauthorized (demo_config 5) [cam_b] w2"
    by (elim conjE exE)
  with cap h r r1 show "\<exists>w1 w2. capture_frame_with_retry env_unauthorized (demo_config 5)
        ''rtsp://a'' started = Inr (Some ''JPEG'', w1)
      \<and> send_frame env_unauthorized (demo_config 5) ''camA'' ''JPEG'' w1 = Inr (None, w2)
      \<and> process_camera env_unauthorized (demo_config 5) cam_a started = Inr w2
      \<and> events_since w1 w2 = [Submit ''camA'' ''JPEG'']
      \<and> n_health w2 = 0 \<and> running w2
      \<and> process_cameras env_unauthorized (demo_config 5) [cam_a, cam_b] started
          = process_cameras env_unauthorized (demo_config 5) [cam_b] w2"
    by (intro exI [of _ w1] exI [of _ w2]) (simp add: cam_a_def env_unauthorized_def)
next
  have up: "[0..<5] = 0 # [1..<5]" by (simp add: upt_conv_Cons)
  have r: "running started" by (simp add: started_def client_init_def)
  have h: "n_health started = 0" by (simp add: started_def client_init_def)
  have "\<exists>w1. capture_frame_with_retry env_a_down (demo_config 5) (rtsp_url cam_b) started
               = Inr (Some ''JPEG'', w1) \<and> running w1"
    using up
    by (simp add: capture_frame_with_retry_def py_range_def demo_config_def capture_frame_def
        env_a_down_def capture_frame_ret_def capture_frame_try_def cam_b_def started_def
        client_init_def)
  then obtain w1 where cap:
    "capture_frame_with_retry env_a_down (demo_config 5) (rtsp_url cam_b) started
       = Inr (Some ''JPEG'', w1)" and r1: "running w1" by blast
  define w2 where "w2 = blocking env_a_down (Submit (camera_id cam_b) ''JPEG'') (1 / 4)
      (w1\<lparr>n_detect := Suc (n_detect w1)\<rparr>)"
  have od: "detect env_a_down (camera_id cam_b) ''JPEG'' (n_detect w1) = (detection_ok, 1 / 4)"
    by (simp add: env_a_down_def)
  have ok: "\<forall>e. detection_ok = PostRaises e \<longrightarrow> is_Exception e"
    by (simp add: detection_ok_def)
  have ret: "send_frame_ret detection_ok
      = Inr (Some (JDict [(''objects'', JList []), (''processing_time_ms'', JNum 12)]))"
    by (simp add: send_frame_ret_def send_frame_try_def detection_ok_def)
  from submission_never_alters_cycle [OF cap od ok w2_def, of "[cam_a]"] obtain res where
    sf: "send_frame env_a_down (demo_config 5) (camera_id cam_b) ''JPEG'' w1 = Inr (res, w2)"
    and more: "process_camera env_a_down (demo_config 5) cam_b started = Inr w2"
    "events_since w1 w2 = [Submit (camera_id cam_b) ''JPEG'']"
    "n_health w2 = n_health started"
    "running w2 = (running w1 \<and> \<not> signal_during env_a_down (tick w1))"
    "running started \<longrightarrow> process_cameras env_a_down (demo_config 5) (cam_b # [cam_a]) started
       = process_cameras env_a_down (demo_config 5) [cam_a] w2"
    by (elim conjE exE)
  have "res = Some (JDict [(''objects'', JList []), (''processing_time_ms'', JNum 12)])"
    using sf od ret by (simp add: send_frame_def)
  with sf more cap h r r1 show "\<exists>w1 w2 res. capture_frame_with_retry env_a_down (demo_config 5)
        ''rtsp://b'' started = Inr (Some ''JPEG'', w1)
      \<and> send_frame env_a_down (demo_config 5) ''camB'' ''JPEG'' w1 = Inr (Some res, w2)
      \<and> process_camera env_a_down (demo_config 5) cam_b started = Inr w2
      \<and> events_since w1 w2 = [Submit ''camB'' ''JPEG'']
      \<and> n_health w2 = 0 \<and> running w2
      \<and> process_cameras env_a_down (demo_config 5) [cam_b, cam_a] started
          = process_cameras env_a_down (demo_config 5) [cam_a] w2"
    by (intro exI [of _ w1] exI [of _ w2]
        exI [of _ "JDict [(''objects'', JList []), (''processing_time_ms'', JNum 12)]"])
      (simp add: cam_b_def env_a_down_def)
qed

subsection \<open>Evaluating the scenarios\<close>








lemma unauthorized_capture:
  "capture_frame env_unauthorized url
     \<lparr>running = r, clock = c, tick = t, n_capture = a, n_detect = b, n_health = h, trace = tr\<rparr>
   = Inr (Some ''JPEG'', \<lparr>running = r, clock = c + 1 / 2, tick = Suc t,
      n_capture = Suc a, n_detect = b, n_health = h, trace = tr @ [Capture url]\<rparr>)"
  by (simp add: capture_frame_record
        [where out = "CompletedProcess 0 ''JPEG'' True" and d = "1 / 2" and res = "Some ''JPEG''"]
      env_unauthorized_def capture_frame_ret_def capture_frame_try_def)

lemma unauthorized_submit:
  "send_frame env_unauthorized cfg cid frame
     \<lparr>running = r, clock = c, tick = t, n_capture = a, n_detect = b, n_health = h, trace = tr\<rparr>
   = Inr (None, \<lparr>running = r, clock = c + 1 / 4, tick = Suc t,
      n_capture = a, n_detect = Suc b, n_health = h, trace = tr @ [Submit cid frame]\<rparr>)"
  by (simp add: send_frame_record [where out = "Response 401 None" and d = "1 / 4" and res = None]
      env_unauthorized_def send_frame_ret_def send_frame_try_def)

lemma unauthorized_retry:
  "capture_frame_with_retry env_unauthorized huge_interval_config ''rtsp://a'' started
     = Inr (Some ''JPEG'', a_captured)"
  by (simp add: huge_interval_config_def capture_frame_with_retry_def range5 started_def
      client_init_def unauthorized_capture a_captured_def)

lemma unauthorized_pass:
  "process_cameras env_unauthorized huge_interval_config (cameras huge_interval_config) started
     = Inr a_submitted"
proof -
  have "process_camera env_unauthorized huge_interval_config cam_a started = Inr a_submitted"
    unfolding process_camera_def
    by (simp add: cam_a_def unauthorized_retry)
      (simp add: a_captured_def unauthorized_submit a_submitted_def)
  moreover have "cameras huge_interval_config = [cam_a]" by (simp add: huge_interval_config_def)
  moreover have "running started" by (simp add: started_def client_init_def)
  ultimately show ?thesis by simp
qed

lemma huge_interval_over_limit:
  "sleep_limit \<le> max 0 (interval huge_interval_config - (clock a_submitted - clock started))"
  by (simp add: sleep_limit_def huge_interval_config_def a_submitted_def started_def
      client_init_def)

subsection \<open>The sleep between cycles\<close>

text \<open>
  With the flag still set after the pass and the residual time below the limit of
  \<^verbatim>\<open>time.sleep\<close>, the scheduler sleeps exactly \<open>max(0, I - P)\<close>: one sleep of \<open>I - P\<close>
  when \<open>P < I\<close>, so that the cycle ends \<open>I\<close> after it started, and none when \<open>P \<ge> I\<close>.
  With the flag cleared it does not sleep.
\<close>

lemma cycle_sleep_below_limit:
  assumes "process_cameras E cfg (cameras cfg) w = Inr w1" and "running w1"
    and "interval cfg - (clock w1 - clock w) < sleep_limit"
  shows "\<exists>w2. cycle E cfg w = Inr w2
           \<and> sleeps_of (events_since w1 w2)
               = (if clock w1 - clock w < interval cfg
                  then [interval cfg - (clock w1 - clock w)] else [])
           \<and> clock w2 - clock w1 = max 0 (interval cfg - (clock w1 - clock w))
           \<and> clock w2 - clock w = max (interval cfg) (clock w1 - clock w)"
proof (cases "clock w1 - clock w < interval cfg")
  case True
  define d where "d = interval cfg - (clock w1 - clock w)"
  have pos: "0 < d" using True by (simp add: d_def)
  have lim: "\<not> sleep_limit \<le> d" using assms(3) by (simp add: d_def)
  have "cycle E cfg w = Inr (sleep E d w1)"
    using assms(1,2) True pos lim by (simp add: cycle_def Let_def d_def max_def time_sleep_def)
  moreover have "events_since w1 (sleep E d w1) = [Sleep d]"
    by (rule events_since_append) (simp add: sleep_def)
  moreover have "clock (sleep E d w1) = clock w1 + d" by (simp add: sleep_def)
  ultimately show ?thesis using True pos
    by (intro exI [of _ "sleep E d w1"]) (simp add: d_def max_def)
next
  case False
  have "cycle E cfg w = Inr w1"
    using assms(1) False by (auto simp: cycle_def Let_def max_def)
  then show ?thesis using False
    by (intro exI [of _ w1]) (auto simp: events_since_def max_def)
qed


text \<open>
  Claim C3 fails on the code for an interval that \<^verbatim>\<open>time.sleep\<close> does not accept. With
  \<^verbatim>\<open>--interval 1e10\<close> the pass over the cameras takes \<open>P = 3/4\<close> seconds and leaves the
  flag set, so the scheduler has to sleep \<open>max(0, I - P) = 1e10 - 3/4\<close> seconds; the call
  raises \<^verbatim>\<open>OverflowError\<close> instead, the cycle ends without a sleep and no cycle follows.
\<close>

theorem huge_interval_cycle_raises:
  "process_cameras env_unauthorized huge_interval_config (cameras huge_interval_config) started
     = Inr a_submitted
   \<and> running a_submitted
   \<and> max 0 (interval huge_interval_config - (clock a_submitted - clock started))
       = 10 ^ 10 - 3 / 4
   \<and> cycle env_unauthorized huge_interval_config started = Inl OverflowError"
proof -
  have r: "running a_submitted" by (simp add: a_submitted_def)
  have m: "max 0 (interval huge_interval_config - (clock a_submitted - clock started))
      = 10 ^ 10 - 3 / 4"
    by (simp add: huge_interval_config_def a_submitted_def started_def client_init_def)
  have pos: "0 < max 0 (interval huge_interval_config - (clock a_submitted - clock started))"
    unfolding m by simp
  have "cycle env_unauthorized huge_interval_config started = Inl OverflowError"
    using unauthorized_pass r pos huge_interval_over_limit
    by (simp add: cycle_def Let_def time_sleep_def)
  with unauthorized_pass r m show ?thesis by (intro conjI)
qed

subsection \<open>A shutdown request during a backoff sleep\<close>










subsection \<open>The running flag\<close>


subsection \<open>Startup validation and the errors of a running scheduler\<close>

lemma py_getitem_raises: "py_getitem v key = Inl e \<Longrightarrow> is_Exception e"
  by (cases v) (auto split: option.splits)

lemma camera_of_json_raises: "camera_of_json j = Inl e \<Longrightarrow> is_Exception e"
  by (auto simp: camera_of_json_def split: sum.splits dest: py_getitem_raises py_get_raises)

lemma camera_of_json_malformed:
  "\<not> well_formed_spec (JsonSpec j) \<Longrightarrow> \<exists>e. camera_of_json j = Inl e"
  by (cases j) (auto simp: camera_of_json_def split: option.splits)

lemma cameras_of_json_raises: "cameras_of_json js = Inl e \<Longrightarrow> is_Exception e"
  by (induction js) (auto split: sum.splits dest: camera_of_json_raises)

lemma cameras_of_json_malformed:
  "\<not> list_all well_formed_spec (map JsonSpec js) \<Longrightarrow> \<exists>e. cameras_of_json js = Inl e"
proof (induction js)
  case Nil
  then show ?case by simp
next
  case (Cons j js)
  show ?case
  proof (cases "well_formed_spec (JsonSpec j)")
    case False
    from camera_of_json_malformed [OF this] show ?thesis by auto
  next
    case True
    with Cons.prems have "\<not> list_all well_formed_spec (map JsonSpec js)" by simp
    from Cons.IH [OF this] show ?thesis by (auto split: sum.splits)
  qed
qed

lemma cameras_of_args_malformed:
  "\<not> list_all well_formed_spec (map InlineSpec ss) \<Longrightarrow> cameras_of_args ss = None"
proof (induction ss)
  case Nil
  then show ?case by simp
next
  case (Cons s ss)
  show ?case
  proof (cases "well_formed_spec (InlineSpec s)")
    case False
    then show ?thesis by (simp add: split_once_def)
  next
    case True
    with Cons.prems have "\<not> list_all well_formed_spec (map InlineSpec ss)" by simp
    from Cons.IH [OF this] show ?thesis
      by (simp add: split_once_def split: list.splits)
  qed
qed

lemma main_without_cameras:
  assumes "truthy (arg_api_url a)" and "truthy (arg_api_key a)"
    and "truthy (arg_config a) \<Longrightarrow>
           load_cameras_from_file S (case arg_config a of Some f \<Rightarrow> f | None \<Rightarrow> []) = Inr []
           \<or> (\<exists>e. load_cameras_from_file S (case arg_config a of Some f \<Rightarrow> f | None \<Rightarrow> []) = Inl e)"
    and "\<not> truthy (arg_config a) \<Longrightarrow> truthy (arg_cameras a) \<Longrightarrow>
           cameras_of_args (case arg_cameras a of Some l \<Rightarrow> l | None \<Rightarrow> []) = None"
    and "\<not> truthy (arg_config a) \<Longrightarrow> \<not> truthy (arg_cameras a) \<Longrightarrow>
           load_cameras_from_env S = Inr [] \<or> (\<exists>e. load_cameras_from_env S = Inl e)"
  shows "\<exists>n. exit_status (main S a) = Some n \<and> n \<noteq> 0"
proof (cases "truthy (arg_config a)")
  case True
  from assms(3) [OF True] show ?thesis
    using assms(1,2) True by (auto simp: main_def)
next
  case False
  show ?thesis
  proof (cases "truthy (arg_cameras a)")
    case True
    from assms(4) [OF False True] show ?thesis
      using assms(1,2) False True by (simp add: main_def)
  next
    case nocams: False
    from assms(5) [OF False nocams] show ?thesis
      using assms(1,2) False nocams by (auto simp: main_def)
  qed
qed

lemma startup_rejected:
  assumes "invalid_startup S a"
  shows "\<exists>n. exit_status (main S a) = Some n \<and> n \<noteq> 0"
proof (cases "truthy (arg_api_url a) \<and> truthy (arg_api_key a)")
  case False
  then show ?thesis by (auto simp: main_def)
next
  case True
  with assms obtain specs where specs: "source_specs S a = Some specs"
    and bad: "specs = [] \<or> \<not> list_all well_formed_spec specs"
    by (auto simp: invalid_startup_def split: option.splits)
  show ?thesis
  proof (rule main_without_cameras)
    show "truthy (arg_api_url a)" "truthy (arg_api_key a)" using True by simp_all
  next
    assume cfg: "truthy (arg_config a)"
    let ?path = "case arg_config a of Some f \<Rightarrow> f | None \<Rightarrow> []"
    from specs cfg obtain kvs where data: "config_file S ?path = Inr (JDict kvs)"
      by (auto simp: source_specs_def split: sum.splits json.splits)
    show "load_cameras_from_file S ?path = Inr []
        \<or> (\<exists>e. load_cameras_from_file S ?path = Inl e)"
    proof (cases "map_of kvs ''cameras''")
      case None
      then show ?thesis by (simp add: load_cameras_from_file_def data)
    next
      case (Some v)
      with specs cfg data obtain xs where v: "v = JList xs" and sp: "specs = map JsonSpec xs"
        by (auto simp: source_specs_def split: json.splits)
      from bad show ?thesis
      proof
        assume "specs = []"
        then show ?thesis using sp v Some by (simp add: load_cameras_from_file_def data)
      next
        assume "\<not> list_all well_formed_spec specs"
        then obtain e where "cameras_of_json xs = Inl e"
          using cameras_of_json_malformed sp by blast
        then show ?thesis using v Some by (simp add: load_cameras_from_file_def data)
      qed
    qed
  next
    assume nocfg: "\<not> truthy (arg_config a)" and cams: "truthy (arg_cameras a)"
    let ?l = "case arg_cameras a of Some l \<Rightarrow> l | None \<Rightarrow> []"
    from specs nocfg cams have sp: "specs = map InlineSpec ?l"
      by (simp add: source_specs_def)
    from cams have "?l \<noteq> []" by (cases "arg_cameras a") simp_all
    with bad sp have "\<not> list_all well_formed_spec (map InlineSpec ?l)" by auto
    then show "cameras_of_args ?l = None" by (rule cameras_of_args_malformed)
  next
    assume nocfg: "\<not> truthy (arg_config a)" and nocams: "\<not> truthy (arg_cameras a)"
    from specs nocfg nocams obtain xs where data: "env_CAMERAS S = Inr (JList xs)"
      and sp: "specs = map JsonSpec xs"
      by (auto simp: source_specs_def split: sum.splits json.splits)
    from bad show "load_cameras_from_env S = Inr [] \<or> (\<exists>e. load_cameras_from_env S = Inl e)"
    proof
      assume "specs = []"
      then show ?thesis using sp by (simp add: load_cameras_from_env_def data)
    next
      assume "\<not> list_all well_formed_spec specs"
      then obtain e where "cameras_of_json xs = Inl e"
        using cameras_of_json_malformed sp by blast
      then show ?thesis by (simp add: load_cameras_from_env_def data)
    qed
  qed
qed

lemma main_runs_inline:
  "main startup_none args_inline =
     RunClient \<lparr>api_url = ''http://api'', api_key = ''secret'',
       cameras = [\<lparr>camera_id = JStr ''camA'', rtsp_url = JStr ''rtsp://a'', name = None\<rparr>],
       interval = 2, max_retries = 5\<rparr>"
  by (simp add: main_def args_inline_def split_once_def rstrip_def)

lemma process_cameras_total:
  assumes "well_behaved E"
  shows "\<exists>w'. process_cameras E cfg cams w = Inr w'"
proof (induction cams arbitrary: w)
  case Nil
  show ?case by simp
next
  case (Cons c cams)
  from process_camera_shape [OF assms, of cfg c w] obtain w1 where
    "process_camera E cfg c w = Inr w1" by blast
  with Cons.IH [of w1] show ?case by (cases "running w") auto
qed

lemma cycle_raises_overflow_only:
  assumes "well_behaved E"
  shows "(\<exists>w'. cycle E cfg w = Inr w') \<or> cycle E cfg w = Inl OverflowError"
proof -
  from process_cameras_total [OF assms, of cfg "cameras cfg" w] obtain w1 where
    "process_cameras E cfg (cameras cfg) w = Inr w1" ..
  then show ?thesis by (simp add: cycle_def Let_def time_sleep_def)
qed

lemma run_loop_raises_overflow_only:
  assumes "well_behaved E"
  shows "run_loop E cfg fuel w = Some (Inl e) \<Longrightarrow> e = OverflowError"
proof (induction fuel arbitrary: w)
  case 0
  then show ?case by (simp split: if_splits)
next
  case (Suc fuel)
  from cycle_raises_overflow_only [OF assms, of cfg w] Suc show ?case
    by (auto split: if_splits)
qed

lemma run_loop_ends_cleared:
  "run_loop E cfg fuel w = Some (Inr w') \<Longrightarrow> \<not> running w'"
proof (induction fuel arbitrary: w)
  case 0
  then show ?case by (simp split: if_splits)
next
  case (Suc fuel)
  then show ?case by (auto split: if_splits sum.splits)
qed

text \<open>
  Claim C8 fails on the code. An invalid startup configuration does make \<open>main\<close> end
  with a status other than zero (\<open>startup_rejected\<close>), and no failure of a capture, a
  submission or a health report leaves \<open>run\<close> (\<open>run_loop_raises_overflow_only\<close>). But
  \<open>main\<close> does not validate the interval: it passes \<^verbatim>\<open>--interval 1e10\<close> on to the client,
  and the first sleep between cycles raises \<^verbatim>\<open>OverflowError\<close>, which nothing in \<open>run\<close>
  catches, so the process ends while the scheduler is running.
\<close>

theorem huge_interval_ends_running_scheduler:
  "main startup_none args_huge_interval =
     RunClient \<lparr>api_url = ''http://api'', api_key = ''secret'',
       cameras = [\<lparr>camera_id = JStr ''camA'', rtsp_url = JStr ''rtsp://a'', name = None\<rparr>],
       interval = 10 ^ 10, max_retries = 5\<rparr>
   \<and> run env_unauthorized huge_interval_config 1 client_init = Some (Inl OverflowError)"
proof -
  have m: "main startup_none args_huge_interval =
     RunClient \<lparr>api_url = ''http://api'', api_key = ''secret'',
       cameras = [\<lparr>camera_id = JStr ''camA'', rtsp_url = JStr ''rtsp://a'', name = None\<rparr>],
       interval = 10 ^ 10, max_retries = 5\<rparr>"
    by (simp add: main_def args_huge_interval_def args_inline_def split_once_def rstrip_def)
  have pos: "0 < max 0 (interval huge_interval_config - (clock a_submitted - clock started))"
    by (simp add: huge_interval_config_def a_submitted_def started_def client_init_def)
  have cy: "cycle env_unauthorized huge_interval_config started = Inl OverflowError"
    using unauthorized_pass pos huge_interval_over_limit
    by (simp add: cycle_def Let_def time_sleep_def a_submitted_def)
  have "client_init\<lparr>running := True\<rparr> = started" by (simp add: started_def)
  moreover have "running started" by (simp add: started_def client_init_def)
  ultimately have "run env_unauthorized huge_interval_config 1 client_init
      = Some (Inl OverflowError)"
    using cy by (simp add: run_def)
  with m show ?thesis by (rule conjI)
qed

end
